theory Spec2Isabelle
  imports Main "HOL-Library.Sublist"
begin

section \<open>Strings of the monitor\<close>

text \<open>
  The monitors are TypeScript: a string is a sequence of UTF-16 code units. A code unit
  is modelled by its number, so that the status glyphs of the pattern tables (which lie
  outside Latin-1) are ordinary strings of the model. \<open>S\<close> reads an ASCII literal.
\<close>

type_synonym jstring = "nat list"

definition S :: "string \<Rightarrow> jstring" where
  "S cs = map of_char cs"

text \<open>
  \<open>\s\<close> of a regular expression and the characters removed by \<open>trim()\<close>: the
  white space and line terminator code units of ECMAScript.
\<close>

definition is_space :: "nat \<Rightarrow> bool" where
  "is_space c \<longleftrightarrow>
     c = 32 \<or> (9 \<le> c \<and> c \<le> 13) \<or> c = 160 \<or> c = 5760 \<or> (8192 \<le> c \<and> c \<le> 8202)
     \<or> c = 8232 \<or> c = 8233 \<or> c = 8239 \<or> c = 8287 \<or> c = 12288 \<or> c = 65279"

definition is_line_terminator :: "nat \<Rightarrow> bool" where
  "is_line_terminator c \<longleftrightarrow> c = 10 \<or> c = 13 \<or> c = 8232 \<or> c = 8233"

definition is_digit :: "nat \<Rightarrow> bool" where
  "is_digit c \<longleftrightarrow> 48 \<le> c \<and> c \<le> 57"

definition is_upper :: "nat \<Rightarrow> bool" where
  "is_upper c \<longleftrightarrow> 65 \<le> c \<and> c \<le> 90"

definition is_lower :: "nat \<Rightarrow> bool" where
  "is_lower c \<longleftrightarrow> 97 \<le> c \<and> c \<le> 122"

definition is_word :: "nat \<Rightarrow> bool" where
  "is_word c \<longleftrightarrow> is_upper c \<or> is_lower c \<or> is_digit c \<or> c = 95"

text \<open>
  \<open>toLowerCase()\<close>. It is exact on the Basic Latin block and on the two code units
  outside it whose lower case contains a Basic Latin letter (the Kelvin sign, and the
  dotted capital I, which becomes \<open>i\<close> and a combining dot), hence exact wherever the
  result is compared with or searched for ASCII text, as the classifier does. Other cased
  letters are left as they are.
\<close>

definition lower_unit :: "nat \<Rightarrow> nat" where
  "lower_unit c = (if is_upper c then c + 32 else c)"

definition lower_units :: "nat \<Rightarrow> jstring" where
  "lower_units c = (if c = 8490 then [107] else if c = 304 then [105, 775] else [lower_unit c])"

definition toLowerCase :: "jstring \<Rightarrow> jstring" where
  "toLowerCase s = concat (map lower_units s)"

definition trim :: "jstring \<Rightarrow> jstring" where
  "trim s = rev (dropWhile is_space (rev (dropWhile is_space s)))"

fun starts_with :: "jstring \<Rightarrow> jstring \<Rightarrow> bool" where
  "starts_with s [] = True"
| "starts_with [] (c # t) = False"
| "starts_with (x # s) (c # t) = (x = c \<and> starts_with s t)"

text \<open>\<open>s.includes(t)\<close>: \<open>t\<close> occurs in \<open>s\<close> as a contiguous run.\<close>

fun includes_str :: "jstring \<Rightarrow> jstring \<Rightarrow> bool" where
  "includes_str [] t = (t = [])"
| "includes_str (x # s) t = (starts_with (x # s) t \<or> includes_str s t)"

text \<open>\<open>parseInt\<close> on a run of decimal digits, which is all the patterns hand it.\<close>

definition parseInt :: "jstring \<Rightarrow> int" where
  "parseInt ds = foldl (\<lambda>a d. 10 * a + (int d - 48)) 0 ds"

text \<open>\<open>xs.slice(0, e)\<close> for an integer \<open>e\<close>: a negative end counts from the back.\<close>

definition slice0 :: "int \<Rightarrow> 'a list \<Rightarrow> 'a list" where
  "slice0 e xs = (if e < 0 then take (nat (int (length xs) + e)) xs else take (nat e) xs)"

section \<open>Regular expressions\<close>

text \<open>
  The pattern tables use literals, character classes, greedy \<open>*\<close> and \<open>+\<close> on a
  single class, capture groups and alternation. A pattern is a list of items; matching
  backtracks in the order of an ECMAScript matcher: a greedy quantifier first takes one
  more character, an alternation its leftmost alternative.
\<close>

datatype cls =
    Lit nat               \<comment> \<open>the code unit itself\<close>
  | LitI nat              \<comment> \<open>an ASCII letter under the \<open>i\<close> flag: either case\<close>
  | Digit                 \<comment> \<open>\<open>\d\<close>\<close>
  | Space                 \<comment> \<open>\<open>\s\<close>\<close>
  | Word                  \<comment> \<open>\<open>\w\<close>\<close>
  | Dot                   \<comment> \<open>\<open>.\<close>\<close>
  | Not cls               \<comment> \<open>\<open>[^...]\<close>\<close>
  | Or cls cls            \<comment> \<open>\<open>[...]\<close> of two members\<close>

fun in_cls :: "cls \<Rightarrow> nat \<Rightarrow> bool" where
  "in_cls (Lit c) x = (x = c)"
| "in_cls (LitI c) x = (lower_unit x = lower_unit c)"
| "in_cls Digit x = is_digit x"
| "in_cls Space x = is_space x"
| "in_cls Word x = is_word x"
| "in_cls Dot x = (\<not> is_line_terminator x)"
| "in_cls (Not k) x = (\<not> in_cls k x)"
| "in_cls (Or k l) x = (in_cls k x \<or> in_cls l x)"

datatype item =
    One cls
  | Star cls
  | Plus cls
  | Open nat              \<comment> \<open>start of capture group \<open>n\<close>\<close>
  | Close nat             \<comment> \<open>end of capture group \<open>n\<close>\<close>
  | Alt "item list list"

type_synonym regex = "item list"

text \<open>The captures: for a group its start and end position in the subject.\<close>

type_synonym caps = "(nat \<times> nat \<times> nat) list"

fun set_start :: "nat \<Rightarrow> nat \<Rightarrow> caps \<Rightarrow> caps" where
  "set_start n p cs = (n, p, p) # filter (\<lambda>(m, _). m \<noteq> n) cs"

fun set_end :: "nat \<Rightarrow> nat \<Rightarrow> caps \<Rightarrow> caps" where
  "set_end n p [] = []"
| "set_end n p ((m, a, b) # cs) = (if m = n then (m, a, p) # cs else (m, a, b) # set_end n p cs)"

fun weight :: "item \<Rightarrow> nat" and weights :: "item list \<Rightarrow> nat" and weightss :: "item list list \<Rightarrow> nat" where
  "weight (One k) = 1"
| "weight (Star k) = 1"
| "weight (Plus k) = 4"
| "weight (Open n) = 1"
| "weight (Close n) = 1"
| "weight (Alt as) = Suc (weightss as)"
| "weights [] = 0"
| "weights (i # r) = Suc (weight i + weights r)"
| "weightss [] = 0"
| "weightss (a # as) = Suc (weights a + weightss as)"

text \<open>
  \<open>match_here r s p cs\<close> matches the items \<open>r\<close> at the front of \<open>s\<close>, which starts
  at position \<open>p\<close> of the subject, and returns the captures of the first successful
  path.
\<close>

function match_here :: "regex \<Rightarrow> jstring \<Rightarrow> nat \<Rightarrow> caps \<Rightarrow> caps option" where
  "match_here [] s p cs = Some cs"
| "match_here (One k # r) [] p cs = None"
| "match_here (One k # r) (x # s) p cs =
     (if in_cls k x then match_here r s (Suc p) cs else None)"
| "match_here (Star k # r) [] p cs = match_here r [] p cs"
| "match_here (Star k # r) (x # s) p cs =
     (if in_cls k x then
        (case match_here (Star k # r) s (Suc p) cs of
           Some m \<Rightarrow> Some m
         | None \<Rightarrow> match_here r (x # s) p cs)
      else match_here r (x # s) p cs)"
| "match_here (Plus k # r) s p cs = match_here (One k # Star k # r) s p cs"
| "match_here (Open n # r) s p cs = match_here r s p (set_start n p cs)"
| "match_here (Close n # r) s p cs = match_here r s p (set_end n p cs)"
| "match_here (Alt [] # r) s p cs = None"
| "match_here (Alt (a # as) # r) s p cs =
     (case match_here (a @ r) s p cs of
        Some m \<Rightarrow> Some m
      | None \<Rightarrow> match_here (Alt as # r) s p cs)"
  by pat_completeness auto
termination
proof -
  have weights_append: "weights (a @ b) = weights a + weights b" for a b
    by (induction a) simp_all
  show ?thesis
    by (relation "measures [\<lambda>(r, s, p, cs). length s, \<lambda>(r, s, p, cs). weights r]")
       (auto simp: weights_append)
qed

text \<open>
  \<open>message.match(pattern)\<close> without the \<open>g\<close> flag: the leftmost position at which
  the pattern matches.
\<close>

fun search_from :: "regex \<Rightarrow> jstring \<Rightarrow> nat \<Rightarrow> caps option" where
  "search_from r [] p = match_here r [] p []"
| "search_from r (x # s) p =
     (case match_here r (x # s) p [] of
        Some m \<Rightarrow> Some m
      | None \<Rightarrow> search_from r s (Suc p))"

definition js_match :: "jstring \<Rightarrow> regex \<Rightarrow> caps option" where
  "js_match msg r = search_from r msg 0"

text \<open>\<open>match[n]\<close> for a group that took part in the match.\<close>

definition grp :: "jstring \<Rightarrow> caps \<Rightarrow> nat \<Rightarrow> jstring" where
  "grp msg m n = (case map_of m n of
       Some (a, b) \<Rightarrow> take (b - a) (drop a msg)
     | None \<Rightarrow> [])"

text \<open>Pattern source text: a literal word, read with or without the \<open>i\<close> flag.\<close>

definition lit :: "string \<Rightarrow> regex" where
  "lit w = map (\<lambda>c. One (Lit (of_char c))) w"

definition litI :: "string \<Rightarrow> regex" where
  "litI w = map (\<lambda>c. One (LitI (of_char c))) w"

definition glyph :: "jstring \<Rightarrow> regex" where
  "glyph g = map (\<lambda>c. One (Lit c)) g"

section \<open>Data model\<close>

text \<open>
  A field of an event that the monitor treats as text. On the wire it is absent
  (undefined or null), a string, or a value of another type (a number, a boolean, an
  object), of which only the truthiness matters: a string method called on it throws.
\<close>

datatype field = Absent | Text jstring | Ill bool

datatype error = TypeError

fun truthy_field :: "field \<Rightarrow> bool" where
  "truthy_field Absent = False"
| "truthy_field (Text s) = (s \<noteq> [])"
| "truthy_field (Ill t) = t"

text \<open>A string in a condition: absent and empty are both false.\<close>

fun truthy :: "jstring option \<Rightarrow> bool" where
  "truthy None = False"
| "truthy (Some s) = (s \<noteq> [])"

text \<open>
  \<open>logData\<close> is an untyped object in the source; its fields are the ones the monitors
  read, each optional. The three on which string methods are called (\<open>message\<close>,
  \<open>step\<close>, \<open>type\<close>) are fields in the sense above; the others have the types of the
  inbound envelope. A structured event hands its \<open>data\<close> object on as \<open>logData\<close>, so
  both have this type. Numbers are integers of any size; the source's are doubles, exact
  on integers up to \<open>2^53\<close>.
\<close>

record logdata =
  ld_message :: field
  ld_step :: field
  ld_progress :: "int option"
  ld_agent :: "jstring option"
  ld_status :: "jstring option"
  ld_level :: "jstring option"
  ld_type :: field
  ld_details :: "jstring option"
  ld_agent_data :: "jstring option"
  ld_emoji :: "jstring option"

definition no_data :: logdata where
  "no_data = \<lparr>ld_message = Absent, ld_step = Absent, ld_progress = None, ld_agent = None,
     ld_status = None, ld_level = None, ld_type = Absent, ld_details = None,
     ld_agent_data = None, ld_emoji = None\<rparr>"

text \<open>
  \<open>lastMessage\<close> of the transport hook: a type tag and an optional data object. The tag
  is only ever compared with fixed tags, so an absent tag is any other string.
\<close>

record event =
  ev_type :: jstring
  ev_data :: "logdata option"

datatype activity_type =
    T_initialization | T_domain_analysis | T_privacy_assessment | T_bias_detection
  | T_relationship_mapping | T_quality_planning | T_data_generation | T_quality_validation
  | T_final_assembly | T_completion | T_error | T_system | T_gemini_call | T_agent_response

datatype activity_status = S_started | S_in_progress | S_completed | S_error | S_fallback

record metadata =
  md_progress :: "int option"
  md_step :: field
  md_agent_data :: "jstring option"
  md_raw_message :: field
  md_type :: field

text \<open>
  The two shapes of \<open>id\<close>: \<open>`${Date.now()}_${random suffix}`\<close> and
  \<open>`error_${Date.now()}`\<close>.
\<close>

datatype ident = Gen_id int jstring | Error_id int

record ActivityLog =
  ident :: ident
  timestamp :: int
  atype :: activity_type
  status :: activity_status
  message :: jstring
  metadata :: "metadata option"
  progress :: "int option"
  agent :: "jstring option"
  level :: "jstring option"
  details :: field

section \<open>The unified monitor: normalization\<close>

text \<open>The status glyphs, as the code units of the source text.\<close>

definition glyph_completed :: jstring where "glyph_completed = [8218, 250, 214]"
definition glyph_error :: jstring where "glyph_error = [8218, 249, 229]"
definition glyph_warning :: jstring where "glyph_warning = [8218, 246, 8224, 212, 8719, 232]"

definition agent_glyphs :: "jstring list" where
  "agent_glyphs =
    [glyph_completed, [63743, 252, 238, 209], glyph_error, glyph_warning,
     [63743, 252, 167, 241], [63743, 252, 223, 8224], [63743, 252, 238, 237],
     [8218, 246, 241, 212, 8719, 232], [63743, 252, 238, 243], [63743, 252, 233, 216]]"

datatype pattern_name = P_progress | P_agent | P_gemini | P_system | P_error | P_completion

text \<open>
  \<^verbatim>\<open>progress:   /\[(\d+)%\]\s*([^:]+):\s*(.+)/\<close>
  \<^verbatim>\<open>agent:      /(glyph|...|glyph)\s*([^:]+):\s*(.+)/\<close>
  \<^verbatim>\<open>gemini:     /Gemini\s+([\w\s]+):\s*(.+)/i\<close>
  \<^verbatim>\<open>system:     /System\s+([\w\s]+):\s*(.+)/i\<close>
  \<^verbatim>\<open>error:      /(Error|Failed|Exception):\s*(.+)/i\<close>
  \<^verbatim>\<open>completion: /(Completed|Finished|Done):\s*(.+)/i\<close>
\<close>

definition colon_rest :: "nat \<Rightarrow> regex" where
  "colon_rest n = [One (Lit 58), Star Space, Open n, Plus Dot, Close n]"

definition re_progress :: regex where
  "re_progress = lit ''['' @ [Open 1, Plus Digit, Close 1] @ lit ''%]'' @
     [Star Space, Open 2, Plus (Not (Lit 58)), Close 2] @ colon_rest 3"

definition re_agent :: regex where
  "re_agent = [Open 1, Alt (map glyph agent_glyphs), Close 1,
     Star Space, Open 2, Plus (Not (Lit 58)), Close 2] @ colon_rest 3"

definition re_gemini :: regex where
  "re_gemini = litI ''Gemini'' @ [Plus Space, Open 1, Plus (Or Word Space), Close 1] @
     colon_rest 2"

definition re_system :: regex where
  "re_system = litI ''System'' @ [Plus Space, Open 1, Plus (Or Word Space), Close 1] @
     colon_rest 2"

definition re_error :: regex where
  "re_error = [Open 1, Alt [litI ''Error'', litI ''Failed'', litI ''Exception''], Close 1] @
     colon_rest 2"

definition re_completion :: regex where
  "re_completion =
     [Open 1, Alt [litI ''Completed'', litI ''Finished'', litI ''Done''], Close 1] @
     colon_rest 2"

text \<open>The table, in the order in which \<open>Object.entries\<close> walks it.\<close>

definition patterns :: "(pattern_name \<times> regex) list" where
  "patterns = [(P_progress, re_progress), (P_agent, re_agent), (P_gemini, re_gemini),
     (P_system, re_system), (P_error, re_error), (P_completion, re_completion)]"

text \<open>The \<open>switch\<close> on the name of the pattern that matched.\<close>

fun extract_fields :: "pattern_name \<Rightarrow> jstring \<Rightarrow> caps \<Rightarrow> logdata" where
  "extract_fields P_progress msg m = no_data
     \<lparr>ld_message := Text (trim (grp msg m 3)), ld_step := Text (trim (grp msg m 2)),
      ld_progress := Some (parseInt (grp msg m 1)), ld_type := Text (S ''progress'')\<rparr>"
| "extract_fields P_agent msg m = no_data
     \<lparr>ld_message := Text (trim (grp msg m 3)), ld_agent := Some (trim (grp msg m 2)),
      ld_status := Some (grp msg m 1), ld_type := Text (S ''agent'')\<rparr>"
| "extract_fields P_gemini msg m = no_data
     \<lparr>ld_message := Text (trim (grp msg m 2)), ld_agent := Some (S ''Gemini AI''),
      ld_status := Some (grp msg m 1), ld_type := Text (S ''gemini'')\<rparr>"
| "extract_fields P_error msg m = no_data
     \<lparr>ld_message := Text (trim (grp msg m 2)), ld_level := Some (S ''error''),
      ld_type := Text (S ''error'')\<rparr>"
| "extract_fields P_completion msg m = no_data
     \<lparr>ld_message := Text (trim (grp msg m 2)), ld_level := Some (S ''success''),
      ld_type := Text (S ''completion'')\<rparr>"
| "extract_fields P_system msg m = no_data
     \<lparr>ld_message := Text (if grp msg m 2 \<noteq> [] then grp msg m 2
                          else if grp msg m 1 \<noteq> [] then grp msg m 1 else msg),
      ld_type := Text (S ''system'')\<rparr>"

text \<open>The \<open>for\<close> loop over the table, left at the first pattern that matches.\<close>

fun first_match :: "(pattern_name \<times> regex) list \<Rightarrow> jstring \<Rightarrow> logdata option" where
  "first_match [] msg = None"
| "first_match ((ty, pattern) # ps) msg =
     (case js_match msg pattern of
        Some m \<Rightarrow> Some (extract_fields ty msg m)
      | None \<Rightarrow> first_match ps msg)"

definition parse_text :: "jstring \<Rightarrow> logdata" where
  "parse_text msg = (case first_match patterns msg of
       Some d \<Rightarrow> d
     | None \<Rightarrow> no_data\<lparr>ld_message := Text msg, ld_type := Text (S ''system'')\<rparr>)"

text \<open>
  The head of the \<open>try\<close> block: a structured event hands its data on, an event with a
  message text is parsed, anything else leaves \<open>logData\<close> null. A truthy message that
  is not a string has no \<open>match\<close> method.
\<close>

definition normalize_event :: "event \<Rightarrow> error + logdata option" where
  "normalize_event e =
     (if ev_type e = S ''generation_update'' \<and> ev_data e \<noteq> None then Inr (ev_data e)
      else case ev_data e of
             None \<Rightarrow> Inr None
           | Some d \<Rightarrow>
               (case ld_message d of
                  Absent \<Rightarrow> Inr None
                | Text msg \<Rightarrow> if msg \<noteq> [] then Inr (Some (parse_text msg)) else Inr None
                | Ill t \<Rightarrow> if t then Inl TypeError else Inr None))"

section \<open>The unified monitor: classification\<close>

text \<open>
  \<open>data.field?.toLowerCase() || ''\<close>: the optional chain guards an absent field only.
\<close>

fun lower_or_empty :: "field \<Rightarrow> error + jstring" where
  "lower_or_empty Absent = Inr []"
| "lower_or_empty (Text s) = Inr (toLowerCase s)"
| "lower_or_empty (Ill t) = Inl TypeError"

definition detectActivityType :: "logdata \<Rightarrow> error + activity_type" where
  "detectActivityType d =
    (case lower_or_empty (ld_message d) of Inl x \<Rightarrow> Inl x | Inr msg \<Rightarrow>
     case lower_or_empty (ld_step d) of Inl x \<Rightarrow> Inl x | Inr stp \<Rightarrow>
     case lower_or_empty (ld_type d) of Inl x \<Rightarrow> Inl x | Inr typ \<Rightarrow>
     Inr (if typ = S ''gemini'' \<or> includes_str msg (S ''gemini'')
             \<or> includes_str stp (S ''gemini'') then T_gemini_call
          else if typ = S ''agent'' \<or> includes_str msg (S ''agent'')
            then T_agent_response
          else if includes_str stp (S ''initialization'')
             \<or> includes_str msg (S ''initializing'') then T_initialization
          else if includes_str stp (S ''domain'') \<or> includes_str msg (S ''domain'')
            then T_domain_analysis
          else if includes_str stp (S ''privacy'') \<or> includes_str msg (S ''privacy'')
            then T_privacy_assessment
          else if includes_str stp (S ''bias'') \<or> includes_str msg (S ''bias'')
            then T_bias_detection
          else if includes_str stp (S ''relationship'')
             \<or> includes_str msg (S ''relationship'') then T_relationship_mapping
          else if includes_str stp (S ''quality'') \<or> includes_str msg (S ''quality'')
            then T_quality_planning
          else if includes_str stp (S ''generation'')
             \<or> includes_str msg (S ''generating'') then T_data_generation
          else if includes_str stp (S ''validation'')
             \<or> includes_str msg (S ''validating'') then T_quality_validation
          else if includes_str stp (S ''assembly'') \<or> includes_str msg (S ''assembling'')
            then T_final_assembly
          else if includes_str stp (S ''completion'') \<or> includes_str msg (S ''completed'')
            then T_completion
          else if ld_progress d = Some (- 1) \<or> includes_str msg (S ''error'')
             \<or> includes_str msg (S ''failed'') then T_error
          else T_system))"

definition detectStatus :: "logdata \<Rightarrow> activity_status" where
  "detectStatus d =
    (if ld_progress d = Some 100 then S_completed
     else if ld_progress d = Some (- 1) then S_error
     else if (case ld_progress d of Some p \<Rightarrow> p > 0 | None \<Rightarrow> False) then S_in_progress
     else if ld_status d = Some glyph_completed then S_completed
     else if ld_status d = Some glyph_error then S_error
     else if ld_status d = Some glyph_warning then S_fallback
     else if ld_level d = Some (S ''error'') then S_error
     else if ld_level d = Some (S ''success'') then S_completed
     else S_started)"

definition detectAgent :: "logdata \<Rightarrow> error + jstring" where
  "detectAgent d =
    (if truthy (ld_agent d) then Inr (the (ld_agent d))
     else
       case lower_or_empty (ld_message d) of Inl x \<Rightarrow> Inl x | Inr msg \<Rightarrow>
       case lower_or_empty (ld_step d) of Inl x \<Rightarrow> Inl x | Inr stp \<Rightarrow>
       Inr (if includes_str msg (S ''domain expert'') \<or> includes_str stp (S ''domain'')
              then S ''Domain Expert''
            else if includes_str msg (S ''privacy agent'')
               \<or> includes_str stp (S ''privacy'') then S ''Privacy Agent''
            else if includes_str msg (S ''bias detector'') \<or> includes_str stp (S ''bias'')
              then S ''Bias Detector''
            else if includes_str msg (S ''quality agent'')
               \<or> includes_str stp (S ''quality'') then S ''Quality Agent''
            else if includes_str msg (S ''relationship agent'')
               \<or> includes_str stp (S ''relationship'') then S ''Relationship Agent''
            else if includes_str msg (S ''gemini'')
               \<or> includes_str msg (S ''2.0 flash'') then S ''Gemini AI''
            else if includes_str msg (S ''ollama'') then S ''Ollama''
            else S ''System''))"

definition detectLevel :: "logdata \<Rightarrow> jstring" where
  "detectLevel d =
    (if truthy (ld_level d) then the (ld_level d)
     else if ld_progress d = Some (- 1) \<or> ld_status d = Some glyph_error then S ''error''
     else if ld_progress d = Some 100 \<or> ld_status d = Some glyph_completed then S ''success''
     else if ld_status d = Some glyph_warning then S ''warning''
     else S ''info'')"

section \<open>The unified monitor: buffer, gauge and pause gate\<close>

text \<open>
  What a run of the message effect reads from outside: the two clock readings
  (\<open>Date.now()\<close> for the id, \<open>new Date()\<close> for the timestamp) and the random suffix.
\<close>

record env =
  date_now :: int
  random_suffix :: jstring
  new_date :: int

text \<open>
  \<open>logData.message || 'Processing...'\<close>. The field is text or absent here: the type
  detection, which comes first in the object literal, has lowered it.
\<close>

fun message_or_placeholder :: "field \<Rightarrow> jstring" where
  "message_or_placeholder (Text s) = (if s \<noteq> [] then s else S ''Processing...'')"
| "message_or_placeholder f = S ''Processing...''"

definition newActivity :: "env \<Rightarrow> event \<Rightarrow> logdata \<Rightarrow> error + ActivityLog" where
  "newActivity v e d =
    (case detectActivityType d of Inl x \<Rightarrow> Inl x | Inr ty \<Rightarrow>
     case detectAgent d of Inl x \<Rightarrow> Inl x | Inr ag \<Rightarrow>
     Inr \<lparr>ident = Gen_id (date_now v) (random_suffix v),
          timestamp = new_date v,
          atype = ty,
          status = detectStatus d,
          message = message_or_placeholder (ld_message d),
          metadata = Some \<lparr>md_progress = ld_progress d, md_step = ld_step d,
             md_agent_data = ld_agent_data d,
             md_raw_message = (case ev_data e of None \<Rightarrow> Absent | Some x \<Rightarrow> ld_message x),
             md_type = ld_type d\<rparr>,
          progress = ld_progress d,
          agent = Some ag,
          level = Some (detectLevel d),
          details = (if truthy (ld_details d) then Text (the (ld_details d)) else ld_step d)\<rparr>)"

definition errorActivity :: "env \<Rightarrow> ActivityLog" where
  "errorActivity v =
    \<lparr>ident = Error_id (date_now v),
     timestamp = new_date v,
     atype = T_error,
     status = S_error,
     message = S ''Failed to parse incoming log message'',
     metadata = None,
     progress = None,
     agent = Some (S ''System''),
     level = Some (S ''error''),
     details = Absent\<rparr>"

text \<open>
  The updater handed to \<open>setActivities\<close>, in the \<open>try\<close> block and in the
  \<open>catch\<close> block alike: \<open>prev => [x, ...prev.slice(0, maxLogs - 1)]\<close>.
\<close>

definition prepend :: "int \<Rightarrow> 'a \<Rightarrow> 'a list \<Rightarrow> 'a list" where
  "prepend maxLogs x prev = x # slice0 (maxLogs - 1) prev"

text \<open>
  The component state. \<open>lastMessage\<close> is the value the transport hook
  \<open>useWebSocket\<close> returns: the last event received, or null before the first. The
  hook is not among the sources; the events it delivers are the input of the model, and
  each arrival hands the component a new \<open>lastMessage\<close>.
\<close>

record monitor =
  activities :: "ActivityLog list"
  currentProgress :: int
  isPaused :: bool
  autoScroll :: bool
  lastMessage :: "event option"

definition mounted :: monitor where
  "mounted = \<lparr>activities = [], currentProgress = 0, isPaused = False, autoScroll = True,
     lastMessage = None\<rparr>"

text \<open>The \<open>catch\<close> block: it prepends the error record and leaves the gauge.\<close>

definition catch_block :: "int \<Rightarrow> env \<Rightarrow> monitor \<Rightarrow> monitor" where
  "catch_block maxLogs v s =
     s\<lparr>activities := prepend maxLogs (errorActivity v) (activities s)\<rparr>"

text \<open>
  The body of the message effect: the gate, then the \<open>try\<close> block. Everything that can
  throw in it comes before the first state update, so a throw leaves the state to the
  \<open>catch\<close> block as the effect found it.
\<close>

definition message_effect :: "int \<Rightarrow> env \<Rightarrow> monitor \<Rightarrow> monitor" where
  "message_effect maxLogs v s =
    (case lastMessage s of
       None \<Rightarrow> s
     | Some e \<Rightarrow>
         if isPaused s then s
         else case normalize_event e of
                Inl x \<Rightarrow> catch_block maxLogs v s
              | Inr None \<Rightarrow> s
              | Inr (Some d) \<Rightarrow>
                  (case newActivity v e d of
                     Inl x \<Rightarrow> catch_block maxLogs v s
                   | Inr a \<Rightarrow>
                       s\<lparr>activities := prepend maxLogs a (activities s),
                         currentProgress :=
                           (case ld_progress d of
                              None \<Rightarrow> currentProgress s
                            | Some p \<Rightarrow> if p \<ge> 0 then p else currentProgress s)\<rparr>))"

text \<open>
  What happens to the component. The effect is declared with the dependencies
  \<open>[lastMessage, maxLogs, isPaused, autoScroll]\<close>: it runs again after every render in
  which one of them changed. A received event is a new \<open>lastMessage\<close>; the pause button
  and the auto-scroll button flip their flag; \<open>clearLogs\<close> touches no dependency.
\<close>

datatype action = Receive event | TogglePause | ToggleAutoScroll | ClearLogs

fun step :: "int \<Rightarrow> env \<Rightarrow> action \<Rightarrow> monitor \<Rightarrow> monitor" where
  "step maxLogs v (Receive e) s = message_effect maxLogs v (s\<lparr>lastMessage := Some e\<rparr>)"
| "step maxLogs v TogglePause s = message_effect maxLogs v (s\<lparr>isPaused := \<not> isPaused s\<rparr>)"
| "step maxLogs v ToggleAutoScroll s =
     message_effect maxLogs v (s\<lparr>autoScroll := \<not> autoScroll s\<rparr>)"
| "step maxLogs v ClearLogs s = s\<lparr>activities := [], currentProgress := 0\<rparr>"

fun run :: "int \<Rightarrow> (env \<times> action) list \<Rightarrow> monitor \<Rightarrow> monitor" where
  "run maxLogs [] s = s"
| "run maxLogs ((v, a) # as) s = run maxLogs as (step maxLogs v a s)"

section \<open>The unified monitor: projection and display\<close>

definition filteredActivities ::
    "jstring \<Rightarrow> jstring \<Rightarrow> jstring \<Rightarrow> ActivityLog list \<Rightarrow> ActivityLog list" where
  "filteredActivities filterLevel filterAgent searchTerm acts =
     filter (\<lambda>activity.
       let levelMatch = (filterLevel = S ''all'' \<or> level activity = Some filterLevel);
           agentMatch = (filterAgent = S ''all'' \<or> agent activity = Some filterAgent);
           searchMatch = (searchTerm = []
             \<or> includes_str (toLowerCase (message activity)) (toLowerCase searchTerm)
             \<or> (case agent activity of
                   None \<Rightarrow> False
                 | Some g \<Rightarrow> includes_str (toLowerCase g) (toLowerCase searchTerm)))
       in levelMatch \<and> agentMatch \<and> searchMatch) acts"

text \<open>The rows the log list renders: \<open>filteredActivities.slice(0, 50).map(...)\<close>.\<close>

definition displayed :: "jstring \<Rightarrow> jstring \<Rightarrow> jstring \<Rightarrow> monitor \<Rightarrow> ActivityLog list" where
  "displayed filterLevel filterAgent searchTerm s =
     slice0 50 (filteredActivities filterLevel filterAgent searchTerm (activities s))"

section \<open>The unified monitor: status poller\<close>

datatype gemini_state = Online | Offline | Unknown

record backend_status =
  healthy :: bool
  lastCheck :: "int option"
  responseTime :: int

record gemini_status =
  gemini_state :: gemini_state
  model :: jstring
  quotaPreserved :: bool

record agents_status =
  active :: bool
  total :: int
  operational :: int

record websockets_status =
  connected :: bool
  ws_status :: jstring

record SystemStatus =
  backend :: backend_status
  gemini :: gemini_status
  agents :: agents_status
  websockets :: websockets_status

definition initial_status :: SystemStatus where
  "initial_status =
    \<lparr>backend = \<lparr>healthy = False, lastCheck = None, responseTime = 0\<rparr>,
     gemini = \<lparr>gemini_state = Unknown, model = S ''gemini-2.0-flash-exp'',
        quotaPreserved = False\<rparr>,
     agents = \<lparr>active = False, total = 5, operational = 0\<rparr>,
     websockets = \<lparr>connected = False, ws_status = S ''disconnected''\<rparr>\<rparr>"

text \<open>
  What the poller reads of a health response. A field reached through an optional chain
  (\<open>healthResponse.data?.services?.gemini?.status\<close>) is absent when a link is.
\<close>

record health_response =
  hr_healthy :: bool
  hr_gemini_status :: "jstring option"
  hr_gemini_model :: "jstring option"
  hr_quota_preserved :: "bool option"
  hr_agents :: "jstring option"
  hr_websockets :: "jstring option"
  hr_tokens_used :: "int option"

text \<open>
  The awaited probe \<open>ApiService.healthCheck()\<close>, which is not among the sources and
  is an input of the model: it resolves with a response, or the \<open>try\<close> block throws.
\<close>

datatype probe = Resolved health_response | Thrown

text \<open>The clock readings of one tick: \<open>Date.now()\<close> before and after, \<open>new Date()\<close>.\<close>

record tick_clock =
  start_time :: int
  end_time :: int
  check_date :: int

definition checkSystemStatus ::
    "bool \<Rightarrow> tick_clock \<Rightarrow> probe \<Rightarrow> SystemStatus \<Rightarrow> SystemStatus" where
  "checkSystemStatus isConnected k pr prev =
    (case pr of
       Resolved r \<Rightarrow>
         \<lparr>backend = \<lparr>healthy = hr_healthy r, lastCheck = Some (check_date k),
            responseTime = end_time k - start_time k\<rparr>,
          gemini = \<lparr>gemini_state =
              (if hr_gemini_status r = Some (S ''ready'') then Online else Offline),
            model = (if truthy (hr_gemini_model r) then the (hr_gemini_model r)
                     else S ''gemini-2.0-flash-exp''),
            quotaPreserved = (case hr_quota_preserved r of None \<Rightarrow> False | Some b \<Rightarrow> b)\<rparr>,
          agents = \<lparr>active = (hr_agents r = Some (S ''active'')), total = 5,
            operational = (if hr_agents r = Some (S ''active'') then 5 else 0)\<rparr>,
          websockets = \<lparr>connected = isConnected,
            ws_status = (if truthy (hr_websockets r) then the (hr_websockets r)
                         else S ''unknown'')\<rparr>\<rparr>
     | Thrown \<Rightarrow>
         prev\<lparr>backend := \<lparr>healthy = False, lastCheck = Some (check_date k),
            responseTime = 0\<rparr>\<rparr>)"

section \<open>The simple monitor\<close>

text \<open>
  \<open>SimpleRealTimeMonitor\<close> keeps fifty rows, knows the bracketed progress pattern only,
  and reads it from events of type \<open>raw_message\<close>. Its \<open>catch\<close> block writes to the
  console and leaves the state alone.
\<close>

record SimpleActivityLog =
  sa_ident :: "int \<times> jstring"
  sa_timestamp :: int
  sa_type :: jstring
  sa_status :: activity_status
  sa_message :: jstring
  sa_agent :: "jstring option"
  sa_progress :: "int option"

definition simple_detectType :: "logdata \<Rightarrow> error + jstring" where
  "simple_detectType d =
    (case lower_or_empty (ld_message d) of Inl x \<Rightarrow> Inl x | Inr msg \<Rightarrow>
     case lower_or_empty (ld_step d) of Inl x \<Rightarrow> Inl x | Inr stp \<Rightarrow>
     Inr (if includes_str stp (S ''domain'') \<or> includes_str msg (S ''domain'')
            then S ''domain_analysis''
          else if includes_str stp (S ''privacy'') \<or> includes_str msg (S ''privacy'')
            then S ''privacy_assessment''
          else if includes_str stp (S ''bias'') \<or> includes_str msg (S ''bias'')
            then S ''bias_detection''
          else if includes_str stp (S ''generation'') \<or> includes_str msg (S ''generating'')
            then S ''data_generation''
          else if includes_str stp (S ''quality'') \<or> includes_str msg (S ''quality'')
            then S ''quality_validation''
          else S ''system''))"

definition simple_detectStatus :: "logdata \<Rightarrow> activity_status" where
  "simple_detectStatus d =
    (if ld_progress d = Some 100 then S_completed
     else if ld_progress d = Some (- 1) then S_error
     else if (case ld_progress d of Some p \<Rightarrow> p > 0 | None \<Rightarrow> False) then S_in_progress
     else S_started)"

definition simple_detectAgent :: "logdata \<Rightarrow> error + jstring" where
  "simple_detectAgent d =
    (case lower_or_empty (ld_message d) of Inl x \<Rightarrow> Inl x | Inr msg \<Rightarrow>
     case lower_or_empty (ld_step d) of Inl x \<Rightarrow> Inl x | Inr stp \<Rightarrow>
     Inr (if includes_str msg (S ''domain'') \<or> includes_str stp (S ''domain'')
            then S ''Domain Expert''
          else if includes_str msg (S ''privacy'') \<or> includes_str stp (S ''privacy'')
            then S ''Privacy Agent''
          else if includes_str msg (S ''bias'') \<or> includes_str stp (S ''bias'')
            then S ''Bias Detector''
          else if includes_str msg (S ''quality'') \<or> includes_str stp (S ''quality'')
            then S ''Quality Agent''
          else S ''System''))"

definition simple_normalize :: "event \<Rightarrow> error + logdata option" where
  "simple_normalize e =
     (if ev_type e = S ''generation_update'' \<and> ev_data e \<noteq> None then Inr (ev_data e)
      else if ev_type e = S ''raw_message''
        then case ev_data e of
               None \<Rightarrow> Inr None
             | Some d \<Rightarrow>
                 (case ld_message d of
                    Absent \<Rightarrow> Inr None
                  | Ill t \<Rightarrow> if t then Inl TypeError else Inr None
                  | Text msg \<Rightarrow>
                      if msg = [] then Inr None
                      else case js_match msg re_progress of
                             None \<Rightarrow> Inr None
                           | Some m \<Rightarrow> Inr (Some (no_data
                               \<lparr>ld_message := Text (trim (grp msg m 3)),
                                ld_step := Text (trim (grp msg m 2)),
                                ld_progress := Some (parseInt (grp msg m 1))\<rparr>)))
      else Inr None)"

definition simple_newActivity :: "env \<Rightarrow> logdata \<Rightarrow> error + SimpleActivityLog" where
  "simple_newActivity v d =
    (case simple_detectType d of Inl x \<Rightarrow> Inl x | Inr ty \<Rightarrow>
     case simple_detectAgent d of Inl x \<Rightarrow> Inl x | Inr ag \<Rightarrow>
     Inr \<lparr>sa_ident = (date_now v, random_suffix v),
          sa_timestamp = new_date v,
          sa_type = ty,
          sa_status = simple_detectStatus d,
          sa_message = message_or_placeholder (ld_message d),
          sa_agent = Some ag,
          sa_progress = ld_progress d\<rparr>)"

record simple_monitor =
  sm_activities :: "SimpleActivityLog list"
  sm_isPaused :: bool
  sm_currentProgress :: int
  sm_lastMessage :: "event option"

definition simple_message_effect :: "env \<Rightarrow> simple_monitor \<Rightarrow> simple_monitor" where
  "simple_message_effect v s =
    (case sm_lastMessage s of
       None \<Rightarrow> s
     | Some e \<Rightarrow>
         if sm_isPaused s then s
         else case simple_normalize e of
                Inl x \<Rightarrow> s
              | Inr None \<Rightarrow> s
              | Inr (Some d) \<Rightarrow>
                  (case simple_newActivity v d of
                     Inl x \<Rightarrow> s
                   | Inr a \<Rightarrow>
                       s\<lparr>sm_activities := a # slice0 49 (sm_activities s),
                         sm_currentProgress :=
                           (case ld_progress d of
                              None \<Rightarrow> sm_currentProgress s
                            | Some p \<Rightarrow> p)\<rparr>))"

definition simple_receive :: "env \<Rightarrow> event \<Rightarrow> simple_monitor \<Rightarrow> simple_monitor" where
  "simple_receive v e s = simple_message_effect v (s\<lparr>sm_lastMessage := Some e\<rparr>)"

definition simple_togglePause :: "env \<Rightarrow> simple_monitor \<Rightarrow> simple_monitor" where
  "simple_togglePause v s = simple_message_effect v (s\<lparr>sm_isPaused := \<not> sm_isPaused s\<rparr>)"

definition simple_mounted :: simple_monitor where
  "simple_mounted = \<lparr>sm_activities = [], sm_isPaused = False, sm_currentProgress = 0,
     sm_lastMessage = None\<rparr>"

fun simple_run :: "(env \<times> event) list \<Rightarrow> simple_monitor \<Rightarrow> simple_monitor" where
  "simple_run [] s = s"
| "simple_run ((v, e) # ves) s = simple_run ves (simple_receive v e s)"

section \<open>The enhanced monitor: projection\<close>

text \<open>
  \<open>EnhancedRealTimeMonitor\<close> filters its rows by search text and agent; it has no
  level filter.
\<close>

record agent_metadata =
  am_domain :: "jstring option"
  am_privacyScore :: "int option"
  am_biasScore :: "int option"
  am_qualityScore :: "int option"
  am_relationshipCount :: "int option"
  am_recordCount :: "int option"
  am_error :: "jstring option"
  am_duration :: "int option"

record AgentLog =
  al_ident :: jstring
  al_timestamp :: int
  al_type :: activity_type
  al_status :: activity_status
  al_message :: jstring
  al_agent :: jstring
  al_progress :: "int option"
  al_metadata :: "agent_metadata option"
  al_level :: jstring

definition filteredLogs :: "jstring \<Rightarrow> jstring \<Rightarrow> AgentLog list \<Rightarrow> AgentLog list" where
  "filteredLogs searchTerm selectedAgent logs =
     filter (\<lambda>log.
       let matchesSearch = (searchTerm = []
             \<or> includes_str (toLowerCase (al_message log)) (toLowerCase searchTerm)
             \<or> includes_str (toLowerCase (al_agent log)) (toLowerCase searchTerm));
           matchesAgent = (selectedAgent = S ''all'' \<or> al_agent log = selectedAgent)
       in matchesSearch \<and> matchesAgent) logs"

section \<open>The full monitor: normalization and classification\<close>

text \<open>
  \<open>RealTimeMonitor\<close> walks an array of eleven patterns and keeps the type the pattern
  assigned. Its glyphs are written in the source as the emoji themselves.
\<close>

definition rt_completed :: jstring where "rt_completed = [9989]"
definition rt_error :: jstring where "rt_error = [10060]"
definition rt_warning :: jstring where "rt_warning = [9888, 65039]"

definition action_glyphs :: "jstring list" where
  "action_glyphs = [[55358, 56598], [55358, 56800], [55357, 56594], [9878, 65039],
     [55357, 56599], [55356, 57263], [55357, 56522]]"

definition status_glyphs :: "jstring list" where
  "status_glyphs = [rt_completed, [55357, 56580], rt_error, rt_warning, [55356, 57263]]"

datatype rt_pattern = R_progress | R_agent_action | R_gemini | R_agent_status
  | R_domain_expert | R_privacy_agent | R_bias_detector | R_quality_agent
  | R_relationship_agent | R_system | R_error

text \<open>
  \<^verbatim>\<open>agent_action: /(glyph|...)\s*([^:]+):\s*(.+)/\<close>
  \<^verbatim>\<open>gemini:       /Gemini\s+(2\.0\s+Flash|AI|Model)\s*[:-]\s*(.+)/i\<close>
  \<^verbatim>\<open>agent_status: /(glyph|...)\s*([^:]+)\s+Agent:\s*(.+)/i\<close>
  \<^verbatim>\<open>domain_expert: /Domain\s+Expert[:\s]+(.+)/i\<close> and its four siblings
  \<^verbatim>\<open>system:       /System[:\s]+(.+)/i\<close>
  \<^verbatim>\<open>error:        /(Error|Failed|Exception)[:\s]+(.+)/i\<close>
\<close>

definition sep_rest :: "nat \<Rightarrow> regex" where
  "sep_rest n = [Plus (Or (Lit 58) Space), Open n, Plus Dot, Close n]"

definition labelled :: "string \<Rightarrow> string \<Rightarrow> regex" where
  "labelled a b = litI a @ [Plus Space] @ litI b @ sep_rest 1"

definition rt_agent_action :: regex where
  "rt_agent_action = [Open 1, Alt (map glyph action_glyphs), Close 1,
     Star Space, Open 2, Plus (Not (Lit 58)), Close 2] @ colon_rest 3"

definition rt_gemini :: regex where
  "rt_gemini = litI ''Gemini'' @
     [Plus Space, Open 1,
      Alt [litI ''2.0'' @ [Plus Space] @ litI ''Flash'', litI ''AI'', litI ''Model''], Close 1,
      Star Space, One (Or (Lit 58) (Lit 45)), Star Space, Open 2, Plus Dot, Close 2]"

definition rt_agent_status :: regex where
  "rt_agent_status = [Open 1, Alt (map glyph status_glyphs), Close 1,
     Star Space, Open 2, Plus (Not (Lit 58)), Close 2, Plus Space] @ litI ''Agent'' @
     colon_rest 3"

definition rt_system :: regex where
  "rt_system = litI ''System'' @ sep_rest 1"

definition rt_error_line :: regex where
  "rt_error_line =
     [Open 1, Alt [litI ''Error'', litI ''Failed'', litI ''Exception''], Close 1] @ sep_rest 2"

definition rt_patterns :: "(rt_pattern \<times> regex) list" where
  "rt_patterns =
    [(R_progress, re_progress), (R_agent_action, rt_agent_action), (R_gemini, rt_gemini),
     (R_agent_status, rt_agent_status),
     (R_domain_expert, labelled ''Domain'' ''Expert''),
     (R_privacy_agent, labelled ''Privacy'' ''Agent''),
     (R_bias_detector, labelled ''Bias'' ''Detector''),
     (R_quality_agent, labelled ''Quality'' ''Agent''),
     (R_relationship_agent, labelled ''Relationship'' ''Agent''),
     (R_system, rt_system), (R_error, rt_error_line)]"

definition agent_line :: "string \<Rightarrow> string \<Rightarrow> jstring \<Rightarrow> caps \<Rightarrow> logdata" where
  "agent_line a t msg m = no_data
     \<lparr>ld_message := Text (trim (grp msg m 1)), ld_agent := Some (S a), ld_type := Text (S t)\<rparr>"

fun rt_extract :: "rt_pattern \<Rightarrow> jstring \<Rightarrow> caps \<Rightarrow> logdata" where
  "rt_extract R_progress msg m = no_data
     \<lparr>ld_message := Text (trim (grp msg m 3)), ld_step := Text (trim (grp msg m 2)),
      ld_progress := Some (parseInt (grp msg m 1)), ld_type := Text (S ''progress'')\<rparr>"
| "rt_extract R_agent_action msg m = no_data
     \<lparr>ld_message := Text (trim (grp msg m 3)), ld_agent := Some (trim (grp msg m 2)),
      ld_type := Text (S ''agent_action''), ld_emoji := Some (grp msg m 1)\<rparr>"
| "rt_extract R_gemini msg m = no_data
     \<lparr>ld_message := Text (trim (grp msg m 2)), ld_agent := Some (S ''Gemini AI''),
      ld_type := Text (S ''gemini'')\<rparr>"
| "rt_extract R_agent_status msg m = no_data
     \<lparr>ld_message := Text (trim (grp msg m 3)), ld_agent := Some (trim (grp msg m 2)),
      ld_status := Some (grp msg m 1), ld_type := Text (S ''agent'')\<rparr>"
| "rt_extract R_domain_expert msg m = agent_line ''Domain Expert'' ''domain_analysis'' msg m"
| "rt_extract R_privacy_agent msg m = agent_line ''Privacy Agent'' ''privacy_assessment'' msg m"
| "rt_extract R_bias_detector msg m = agent_line ''Bias Detector'' ''bias_detection'' msg m"
| "rt_extract R_quality_agent msg m = agent_line ''Quality Agent'' ''quality_planning'' msg m"
| "rt_extract R_relationship_agent msg m =
     agent_line ''Relationship Agent'' ''relationship_mapping'' msg m"
| "rt_extract R_error msg m = no_data
     \<lparr>ld_message := Text (trim (grp msg m 2)), ld_level := Some (S ''error''),
      ld_type := Text (S ''error'')\<rparr>"
| "rt_extract R_system msg m = no_data
     \<lparr>ld_message := Text (if grp msg m 1 \<noteq> [] then grp msg m 1
                          else if grp msg m 2 \<noteq> [] then grp msg m 2 else msg),
      ld_type := Text (S ''system'')\<rparr>"

fun rt_first_match :: "(rt_pattern \<times> regex) list \<Rightarrow> jstring \<Rightarrow> logdata option" where
  "rt_first_match [] msg = None"
| "rt_first_match ((ty, pattern) # ps) msg =
     (case js_match msg pattern of
        Some m \<Rightarrow> Some (rt_extract ty msg m)
      | None \<Rightarrow> rt_first_match ps msg)"

definition rt_parse_text :: "jstring \<Rightarrow> logdata" where
  "rt_parse_text msg = (case rt_first_match rt_patterns msg of
       Some d \<Rightarrow> d
     | None \<Rightarrow> no_data\<lparr>ld_message := Text msg, ld_level := Some (S ''info''),
         ld_type := Text (S ''system'')\<rparr>)"

definition rt_normalize :: "event \<Rightarrow> error + logdata option" where
  "rt_normalize e =
     (if ev_type e = S ''generation_update'' \<and> ev_data e \<noteq> None then Inr (ev_data e)
      else case ev_data e of
             None \<Rightarrow> Inr None
           | Some d \<Rightarrow>
               (case ld_message d of
                  Absent \<Rightarrow> Inr None
                | Text msg \<Rightarrow> if msg \<noteq> [] then Inr (Some (rt_parse_text msg)) else Inr None
                | Ill t \<Rightarrow> if t then Inl TypeError else Inr None))"

text \<open>\<open>if (data.type) return data.type\<close> hands on whatever the field holds.\<close>

definition detectLogType :: "logdata \<Rightarrow> error + field" where
  "detectLogType d =
    (if truthy_field (ld_type d) then Inr (ld_type d)
     else
       case lower_or_empty (ld_message d) of Inl x \<Rightarrow> Inl x | Inr msg \<Rightarrow>
       case lower_or_empty (ld_step d) of Inl x \<Rightarrow> Inl x | Inr stp \<Rightarrow>
       Inr (Text
         (if includes_str stp (S ''initialization'')
             \<or> includes_str msg (S ''initializing'') then S ''initialization''
          else if includes_str stp (S ''domain'') \<or> includes_str msg (S ''domain'')
             \<or> ld_agent d = Some (S ''Domain Expert'') then S ''domain_analysis''
          else if includes_str stp (S ''privacy'') \<or> includes_str msg (S ''privacy'')
             \<or> ld_agent d = Some (S ''Privacy Agent'') then S ''privacy_assessment''
          else if includes_str stp (S ''bias'') \<or> includes_str msg (S ''bias'')
             \<or> ld_agent d = Some (S ''Bias Detector'') then S ''bias_detection''
          else if includes_str stp (S ''relationship'')
             \<or> includes_str msg (S ''relationship'')
             \<or> ld_agent d = Some (S ''Relationship Agent'') then S ''relationship_mapping''
          else if includes_str stp (S ''quality'') \<or> includes_str msg (S ''quality'')
             \<or> ld_agent d = Some (S ''Quality Agent'') then S ''quality_planning''
          else if includes_str stp (S ''generation'')
             \<or> includes_str msg (S ''generating'') then S ''data_generation''
          else if includes_str stp (S ''validation'')
             \<or> includes_str msg (S ''validating'') then S ''quality_validation''
          else if includes_str stp (S ''assembly'') \<or> includes_str msg (S ''assembling'')
            then S ''final_assembly''
          else if includes_str stp (S ''completion'') \<or> includes_str msg (S ''completed'')
            then S ''completion''
          else if includes_str msg (S ''gemini'') \<or> ld_agent d = Some (S ''Gemini AI'')
            then S ''gemini''
          else if ld_progress d = Some (- 1) \<or> includes_str msg (S ''error'')
             \<or> includes_str msg (S ''failed'') then S ''error''
          else S ''system'')))"

text \<open>The status poller of the full monitor, on its own snapshot type.\<close>

datatype rt_gemini_state = RT_online | RT_offline | RT_starting | RT_error

record rt_gemini_status =
  rg_status :: rt_gemini_state
  rg_model :: jstring
  rg_tokensUsed :: "int option"

record rt_agents_status =
  ra_active :: bool
  ra_total :: int
  ra_operational :: int
  ra_currentAgent :: "jstring option"

record rt_SystemStatus =
  rt_backend :: backend_status
  rt_gemini_part :: rt_gemini_status
  rt_agents :: rt_agents_status
  rt_websockets :: websockets_status

definition rt_checkSystemStatus ::
    "bool \<Rightarrow> tick_clock \<Rightarrow> probe \<Rightarrow> rt_SystemStatus \<Rightarrow> rt_SystemStatus" where
  "rt_checkSystemStatus isConnected k pr prev =
    (case pr of
       Resolved r \<Rightarrow>
         prev\<lparr>rt_backend := \<lparr>healthy = hr_healthy r, lastCheck = Some (check_date k),
            responseTime = end_time k - start_time k\<rparr>,
          rt_gemini_part := \<lparr>rg_status =
              (if hr_gemini_status r = Some (S ''ready'') then RT_online
               else if hr_gemini_status r = Some (S ''starting'') then RT_starting
               else RT_offline),
            rg_model = (if truthy (hr_gemini_model r) then the (hr_gemini_model r)
                        else S ''gemini-2.0-flash-exp''),
            rg_tokensUsed = hr_tokens_used r\<rparr>,
          rt_agents := \<lparr>ra_active = (hr_agents r = Some (S ''active'')), ra_total = 5,
            ra_operational = (if hr_agents r = Some (S ''active'') then 5 else 0),
            ra_currentAgent = None\<rparr>,
          rt_websockets := \<lparr>connected = isConnected,
            ws_status = (if truthy (hr_websockets r) then the (hr_websockets r)
                         else S ''unknown'')\<rparr>\<rparr>
     | Thrown \<Rightarrow>
         prev\<lparr>rt_backend := \<lparr>healthy = False, lastCheck = Some (check_date k),
            responseTime = 0\<rparr>\<rparr>)"

datatype log_status = L_started | L_in_progress | L_completed | L_error | L_warning

definition detectLogStatus :: "logdata \<Rightarrow> log_status" where
  "detectLogStatus d =
    (if ld_progress d = Some 100 then L_completed
     else if ld_progress d = Some (- 1) \<or> ld_level d = Some (S ''error'') then L_error
     else if (case ld_progress d of Some p \<Rightarrow> p > 0 | None \<Rightarrow> False) then L_in_progress
     else if ld_status d = Some rt_completed then L_completed
     else if ld_status d = Some rt_error then L_error
     else if ld_status d = Some rt_warning then L_warning
     else L_started)"

definition rt_detectLevel :: "logdata \<Rightarrow> jstring" where
  "rt_detectLevel d =
    (if truthy (ld_level d) then the (ld_level d)
     else if ld_progress d = Some (- 1) \<or> ld_status d = Some rt_error then S ''error''
     else if ld_progress d = Some 100 \<or> ld_status d = Some rt_completed then S ''success''
     else if ld_status d = Some rt_warning then S ''warning''
     else S ''info'')"

section \<open>Rows put on the buffer\<close>

text \<open>
  A run in which every action is the arrival of an event, and the row the message effect
  of a running monitor puts on the buffer for an event: its record, the error record when
  the \<open>try\<close> block throws, none when \<open>logData\<close> stays null.
\<close>

definition receives :: "(env \<times> event) list \<Rightarrow> (env \<times> action) list" where
  "receives ves = map (\<lambda>(v, e). (v, Receive e)) ves"

definition new_row :: "env \<times> event \<Rightarrow> ActivityLog option" where
  "new_row ve =
     (case normalize_event (snd ve) of
        Inl x \<Rightarrow> Some (errorActivity (fst ve))
      | Inr None \<Rightarrow> None
      | Inr (Some d) \<Rightarrow>
          (case newActivity (fst ve) (snd ve) d of
             Inl x \<Rightarrow> Some (errorActivity (fst ve))
           | Inr a \<Rightarrow> Some a))"

definition simple_new_row :: "env \<times> event \<Rightarrow> SimpleActivityLog option" where
  "simple_new_row ve =
     (case simple_normalize (snd ve) of
        Inl x \<Rightarrow> None
      | Inr None \<Rightarrow> None
      | Inr (Some d) \<Rightarrow>
          (case simple_newActivity (fst ve) d of
             Inl x \<Rightarrow> None
           | Inr a \<Rightarrow> Some a))"

section \<open>The shapes of an event\<close>

text \<open>
  The message effect tells apart a structured event (a generation update with a data
  object) and a free-text event (any other event whose data carries a non-empty message
  text). Its \<open>try\<close> block throws on a structured event that is not typed (one of the
  three text fields holds something else) and on an event that is not structured and
  carries a truthy message that is not a string.
\<close>

fun is_ill :: "field \<Rightarrow> bool" where
  "is_ill (Ill t) = True"
| "is_ill f = False"

definition typed :: "logdata \<Rightarrow> bool" where
  "typed d \<longleftrightarrow> \<not> is_ill (ld_message d) \<and> \<not> is_ill (ld_step d) \<and> \<not> is_ill (ld_type d)"

definition structured :: "event \<Rightarrow> logdata \<Rightarrow> bool" where
  "structured e d \<longleftrightarrow> ev_type e = S ''generation_update'' \<and> ev_data e = Some d"

definition free_text :: "event \<Rightarrow> jstring \<Rightarrow> bool" where
  "free_text e msg \<longleftrightarrow>
     \<not> (ev_type e = S ''generation_update'' \<and> ev_data e \<noteq> None)
     \<and> (\<exists>d. ev_data e = Some d \<and> ld_message d = Text msg) \<and> msg \<noteq> []"

definition ill_text :: "event \<Rightarrow> bool" where
  "ill_text e \<longleftrightarrow>
     \<not> (ev_type e = S ''generation_update'' \<and> ev_data e \<noteq> None)
     \<and> (\<exists>d. ev_data e = Some d \<and> ld_message d = Ill True)"

definition neither_shape :: "event \<Rightarrow> bool" where
  "neither_shape e \<longleftrightarrow> (\<forall>d. \<not> structured e d) \<and> (\<forall>m. \<not> free_text e m) \<and> \<not> ill_text e"

section \<open>The projection as the specification words it\<close>

text \<open>
  A record passes iff it satisfies every criterion: the level filter (exact match or
  \<open>all\<close>), the agent filter (exact match or \<open>all\<close>) and the search text (a
  case-insensitive substring of the message or of the agent; the empty text always
  matches).
\<close>

definition spec_substring :: "jstring \<Rightarrow> jstring \<Rightarrow> bool" where
  "spec_substring t s \<longleftrightarrow> (\<exists>pre suf. toLowerCase s = pre @ toLowerCase t @ suf)"

definition spec_passes_enhanced :: "jstring \<Rightarrow> jstring \<Rightarrow> AgentLog \<Rightarrow> bool" where
  "spec_passes_enhanced agentFilter searchText a \<longleftrightarrow>
     (agentFilter = S ''all'' \<or> al_agent a = agentFilter)
     \<and> (searchText = [] \<or> spec_substring searchText (al_message a)
        \<or> spec_substring searchText (al_agent a))"

definition spec_passes :: "jstring \<Rightarrow> jstring \<Rightarrow> jstring \<Rightarrow> ActivityLog \<Rightarrow> bool" where
  "spec_passes levelFilter agentFilter searchText a \<longleftrightarrow>
     (levelFilter = S ''all'' \<or> level a = Some levelFilter)
     \<and> (agentFilter = S ''all'' \<or> agent a = Some agentFilter)
     \<and> (searchText = [] \<or> spec_substring searchText (message a)
        \<or> (\<exists>g. agent a = Some g \<and> spec_substring searchText g))"

section \<open>Sample inputs\<close>

definition sample_env :: "int \<Rightarrow> env" where
  "sample_env t = \<lparr>date_now = t, random_suffix = S ''k3x9q'', new_date = t\<rparr>"

definition update_event :: "string \<Rightarrow> int \<Rightarrow> event" where
  "update_event m p = \<lparr>ev_type = S ''generation_update'',
     ev_data = Some (no_data\<lparr>ld_message := Text (S m), ld_progress := Some p\<rparr>)\<rparr>"

definition text_event :: "string \<Rightarrow> event" where
  "text_event m = \<lparr>ev_type = S ''raw'', ev_data = Some (no_data\<lparr>ld_message := Text (S m)\<rparr>)\<rparr>"

definition number_event :: event where
  "number_event = \<lparr>ev_type = S ''raw'', ev_data = Some (no_data\<lparr>ld_message := Ill True\<rparr>)\<rparr>"

definition typed_update :: event where
  "typed_update = \<lparr>ev_type = S ''generation_update'', ev_data = Some no_data\<rparr>"

definition ill_update :: event where
  "ill_update = \<lparr>ev_type = S ''generation_update'',
     ev_data = Some (no_data\<lparr>ld_message := Text (S ''working''), ld_step := Ill True\<rparr>)\<rparr>"

definition status_event :: event where
  "status_event = \<lparr>ev_type = S ''status'', ev_data = Some no_data\<rparr>"

definition three_updates :: "(env \<times> event) list" where
  "three_updates = [(sample_env 1, update_event ''first'' 10),
     (sample_env 2, update_event ''second'' 20), (sample_env 3, update_event ''third'' 30)]"

definition paused_at :: "int \<Rightarrow> monitor" where
  "paused_at g = \<lparr>activities = [], currentProgress = g, isPaused = True, autoScroll = True,
     lastMessage = None\<rparr>"

definition ready_response :: health_response where
  "ready_response = \<lparr>hr_healthy = True, hr_gemini_status = Some (S ''ready''),
     hr_gemini_model = Some (S ''gemini-2.0-flash-exp''), hr_quota_preserved = Some True,
     hr_agents = Some (S ''active''), hr_websockets = Some (S ''active''),
     hr_tokens_used = None\<rparr>"

definition sample_clock :: "int \<Rightarrow> tick_clock" where
  "sample_clock t = \<lparr>start_time = t, end_time = t + 12, check_date = t + 12\<rparr>"

definition sample_row :: "int \<Rightarrow> string \<Rightarrow> string \<Rightarrow> string \<Rightarrow> ActivityLog" where
  "sample_row t m a l =
    \<lparr>ident = Gen_id t (S ''k3x9q''), timestamp = t, atype = T_system, status = S_started,
     message = S m, metadata = None, progress = None, agent = Some (S a), level = Some (S l),
     details = Absent\<rparr>"

section \<open>Auxiliary facts\<close>

lemmas string_defs = S_def is_space_def is_line_terminator_def is_digit_def is_upper_def
  is_lower_def is_word_def lower_unit_def lower_units_def toLowerCase_def trim_def parseInt_def

lemmas regex_defs = js_match_def grp_def lit_def litI_def glyph_def colon_rest_def
  re_progress_def re_agent_def re_gemini_def re_system_def re_error_def re_completion_def
  agent_glyphs_def glyph_completed_def glyph_error_def glyph_warning_def patterns_def

lemmas unified_defs = normalize_event_def parse_text_def newActivity_def detectActivityType_def
  detectStatus_def detectAgent_def detectLevel_def message_effect_def catch_block_def
  errorActivity_def prepend_def slice0_def mounted_def no_data_def

lemma take_append_take: "n \<le> length R + m \<Longrightarrow> take n (R @ take m A) = take n (R @ A)"
  by (auto simp: min_def)

lemma prepend_take: "1 \<le> C \<Longrightarrow> prepend C x prev = x # take (nat C - 1) prev"
  by (simp add: prepend_def slice0_def nat_diff_distrib)

lemma length_prepend: "1 \<le> C \<Longrightarrow> length (prepend C x prev) \<le> nat C"
  by (auto simp: prepend_take)

lemma message_effect_row:
  "\<not> isPaused s \<Longrightarrow> lastMessage s = Some e \<Longrightarrow>
   activities (message_effect C v s)
     = (case new_row (v, e) of None \<Rightarrow> activities s | Some a \<Rightarrow> prepend C a (activities s))
   \<and> isPaused (message_effect C v s) = isPaused s"
  by (simp add: message_effect_def new_row_def catch_block_def split: sum.splits option.splits)

lemma message_effect_length:
  "1 \<le> C \<Longrightarrow> length (activities s) \<le> nat C \<Longrightarrow> length (activities (message_effect C v s)) \<le> nat C"
  by (auto simp: message_effect_def catch_block_def length_prepend split: option.splits sum.splits)

lemma step_length:
  "1 \<le> C \<Longrightarrow> length (activities s) \<le> nat C \<Longrightarrow> length (activities (step C v a s)) \<le> nat C"
  by (cases a) (simp_all add: message_effect_length)

lemma run_length:
  "1 \<le> C \<Longrightarrow> length (activities s) \<le> nat C \<Longrightarrow> length (activities (run C acts s)) \<le> nat C"
  by (induction acts arbitrary: s) (auto simp: step_length)

lemma receive_row:
  "\<not> isPaused s \<Longrightarrow>
   activities (step C v (Receive e) s)
     = (case new_row (v, e) of None \<Rightarrow> activities s | Some a \<Rightarrow> prepend C a (activities s))
   \<and> \<not> isPaused (step C v (Receive e) s)"
  using message_effect_row [of "s\<lparr>lastMessage := Some e\<rparr>" e C v]
  by (simp split: option.splits)

lemma run_receives:
  "1 \<le> C \<Longrightarrow> \<not> isPaused s \<Longrightarrow> length (activities s) \<le> nat C \<Longrightarrow>
   activities (run C (receives ves) s) = take (nat C) (rev (List.map_filter new_row ves) @ activities s)"
proof (induction ves arbitrary: s)
  case Nil
  then show ?case by (simp add: receives_def)
next
  case (Cons ve ves)
  obtain v e where ve: "ve = (v, e)" by (cases ve)
  let ?s = "step C v (Receive e) s"
  have r: "activities ?s
     = (case new_row ve of None \<Rightarrow> activities s | Some a \<Rightarrow> prepend C a (activities s))"
    and p1: "\<not> isPaused ?s"
    using receive_row [OF Cons.prems(2), of C v e] ve by simp_all
  have l1: "length (activities ?s) \<le> nat C"
    using Cons.prems(1) Cons.prems(3) by (rule step_length)
  have "activities (run C (receives (ve # ves)) s) = activities (run C (receives ves) ?s)"
    by (simp add: receives_def ve)
  also have "\<dots> = take (nat C) (rev (List.map_filter new_row ves) @ activities ?s)"
    using Cons.IH [OF Cons.prems(1) p1 l1] .
  also have "\<dots> = take (nat C) (rev (List.map_filter new_row (ve # ves)) @ activities s)"
  proof (cases "new_row ve")
    case None
    then show ?thesis by (subst r) (simp add: map_filter_simps)
  next
    case (Some a)
    have "take (nat C) (rev (List.map_filter new_row ves) @ activities ?s)
        = take (nat C) ((rev (List.map_filter new_row ves) @ [a]) @ take (nat C - 1) (activities s))"
      using Some Cons.prems(1) by (subst r) (simp add: prepend_take)
    also have "\<dots> = take (nat C) ((rev (List.map_filter new_row ves) @ [a]) @ activities s)"
      by (rule take_append_take) simp
    finally show ?thesis using Some by (simp add: map_filter_simps)
  qed
  finally show ?case .
qed

lemma simple_receive_row:
  "\<not> sm_isPaused s \<Longrightarrow>
   sm_activities (simple_receive v e s)
     = (case simple_new_row (v, e) of None \<Rightarrow> sm_activities s
        | Some a \<Rightarrow> a # take 49 (sm_activities s))
   \<and> \<not> sm_isPaused (simple_receive v e s)"
  by (simp add: simple_receive_def simple_message_effect_def simple_new_row_def slice0_def
      split: sum.splits option.splits)

lemma simple_run_rows:
  "\<not> sm_isPaused s \<Longrightarrow> length (sm_activities s) \<le> 50 \<Longrightarrow>
   sm_activities (simple_run ves s) = take 50 (rev (List.map_filter simple_new_row ves) @ sm_activities s)"
proof (induction ves arbitrary: s)
  case Nil
  then show ?case by simp
next
  case (Cons ve ves)
  obtain v e where ve: "ve = (v, e)" by (cases ve)
  let ?s = "simple_receive v e s"
  have r: "sm_activities ?s
     = (case simple_new_row ve of None \<Rightarrow> sm_activities s
        | Some a \<Rightarrow> a # take 49 (sm_activities s))"
    and p1: "\<not> sm_isPaused ?s"
    using simple_receive_row [OF Cons.prems(1), of v e] ve by simp_all
  have l1: "length (sm_activities ?s) \<le> 50"
    using Cons.prems(2) by (subst r) (simp split: option.splits)
  have "sm_activities (simple_run (ve # ves) s) = sm_activities (simple_run ves ?s)"
    by (simp add: ve)
  also have "\<dots> = take 50 (rev (List.map_filter simple_new_row ves) @ sm_activities ?s)"
    using Cons.IH [OF p1 l1] .
  also have "\<dots> = take 50 (rev (List.map_filter simple_new_row (ve # ves)) @ sm_activities s)"
  proof (cases "simple_new_row ve")
    case None
    then show ?thesis by (subst r) (simp add: map_filter_simps)
  next
    case (Some a)
    have "take 50 (rev (List.map_filter simple_new_row ves) @ sm_activities ?s)
        = take 50 ((rev (List.map_filter simple_new_row ves) @ [a]) @ take 49 (sm_activities s))"
      using Some by (subst r) simp
    also have "\<dots> = take 50 ((rev (List.map_filter simple_new_row ves) @ [a]) @ sm_activities s)"
      by (rule take_append_take) simp
    finally show ?thesis using Some by (simp add: map_filter_simps)
  qed
  finally show ?case .
qed

lemmas rt_defs = rt_patterns_def sep_rest_def labelled_def rt_agent_action_def rt_gemini_def
  rt_agent_status_def rt_system_def rt_error_line_def action_glyphs_def status_glyphs_def
  rt_completed_def rt_error_def rt_warning_def agent_line_def

lemmas simple_defs = simple_receive_def simple_togglePause_def simple_message_effect_def
  simple_mounted_def simple_normalize_def simple_newActivity_def simple_detectType_def
  simple_detectStatus_def simple_detectAgent_def

lemma lower_typed: "\<not> is_ill f \<Longrightarrow> \<exists>s. lower_or_empty f = Inr s"
  by (cases f) simp_all

lemma lower_ill: "is_ill f \<Longrightarrow> lower_or_empty f = Inl TypeError"
  by (cases f) simp_all

lemma detectActivityType_ill: "\<not> typed d \<Longrightarrow> detectActivityType d = Inl TypeError"
  unfolding detectActivityType_def typed_def
  by (cases "ld_message d"; cases "ld_step d"; cases "ld_type d") simp_all

lemma newActivity_ill: "\<not> typed d \<Longrightarrow> newActivity v e d = Inl TypeError"
  by (simp add: newActivity_def detectActivityType_ill)

lemma newActivity_typed:
  "typed d \<Longrightarrow> \<exists>a. newActivity v e d = Inr a \<and> message a = message_or_placeholder (ld_message d)"
proof -
  assume t: "typed d"
  then obtain m s y where l: "lower_or_empty (ld_message d) = Inr m"
    "lower_or_empty (ld_step d) = Inr s" "lower_or_empty (ld_type d) = Inr y"
    using lower_typed unfolding typed_def by blast
  then obtain ty where "detectActivityType d = Inr ty"
    by (simp add: detectActivityType_def)
  moreover obtain ag where "detectAgent d = Inr ag"
    using l by (cases "truthy (ld_agent d)") (simp_all add: detectAgent_def)
  ultimately show ?thesis by (simp add: newActivity_def)
qed

lemma extract_fields_typed: "typed (extract_fields ty msg m)"
  by (cases ty) (simp_all add: typed_def no_data_def)

lemma first_match_typed: "first_match ps msg = Some d \<Longrightarrow> typed d"
  by (induction ps) (auto simp: extract_fields_typed split: option.splits)

lemma parse_text_typed: "typed (parse_text msg)"
proof (cases "first_match patterns msg")
  case None
  then show ?thesis by (simp add: parse_text_def typed_def no_data_def)
next
  case (Some d)
  then show ?thesis using first_match_typed [OF Some] by (simp add: parse_text_def)
qed

lemma first_match_none:
  "(\<forall>p \<in> set ps. js_match msg (snd p) = None) \<Longrightarrow> first_match ps msg = None"
  by (induction ps) auto

lemma receive_accepted:
  "\<not> isPaused s \<Longrightarrow> normalize_event e = Inr (Some d) \<Longrightarrow> newActivity v e d = Inr a \<Longrightarrow>
   activities (step C v (Receive e) s) = prepend C a (activities s)
   \<and> currentProgress (step C v (Receive e) s) =
       (case ld_progress d of None \<Rightarrow> currentProgress s
        | Some p \<Rightarrow> if 0 \<le> p then p else currentProgress s)"
  by (cases "ld_progress d") (simp_all add: message_effect_def)

lemma receive_thrown:
  "\<not> isPaused s \<Longrightarrow>
   normalize_event e = Inl x \<or> (\<exists>d. normalize_event e = Inr (Some d) \<and> newActivity v e d = Inl x) \<Longrightarrow>
   step C v (Receive e) s = catch_block C v (s\<lparr>lastMessage := Some e\<rparr>)"
  by (auto simp: message_effect_def)

lemma receive_skipped:
  "normalize_event e = Inr None \<Longrightarrow> step C v (Receive e) s = s\<lparr>lastMessage := Some e\<rparr>"
  by (simp add: message_effect_def)

lemma unified_gauge_rule:
  "\<not> isPaused s \<Longrightarrow> normalize_event e = Inr (Some d) \<Longrightarrow> newActivity v e d = Inr a \<Longrightarrow>
   currentProgress (step C v (Receive e) s) =
     (case ld_progress d of None \<Rightarrow> currentProgress s
      | Some p \<Rightarrow> if 0 \<le> p then p else currentProgress s)"
  using receive_accepted [of s e d v a C] by blast

lemma starts_with_iff: "starts_with s t \<longleftrightarrow> (\<exists>suf. s = t @ suf)"
  by (induction s t rule: starts_with.induct) auto

lemma includes_str_iff: "includes_str s t \<longleftrightarrow> (\<exists>pre suf. s = pre @ t @ suf)"
proof (induction s)
  case Nil
  show ?case by auto
next
  case (Cons x s)
  have "(\<exists>pre suf. x # s = pre @ t @ suf) \<longleftrightarrow>
        (\<exists>suf. x # s = t @ suf) \<or> (\<exists>pre suf. s = pre @ t @ suf)"
  proof
    assume "\<exists>pre suf. x # s = pre @ t @ suf"
    then obtain pre suf where eq: "x # s = pre @ t @ suf" by blast
    show "(\<exists>suf. x # s = t @ suf) \<or> (\<exists>pre suf. s = pre @ t @ suf)"
    proof (cases pre)
      case Nil
      with eq show ?thesis by auto
    next
      case (Cons y pre')
      with eq have "s = pre' @ t @ suf" by simp
      then show ?thesis by blast
    qed
  next
    assume "(\<exists>suf. x # s = t @ suf) \<or> (\<exists>pre suf. s = pre @ t @ suf)"
    then show "\<exists>pre suf. x # s = pre @ t @ suf"
    proof
      assume "\<exists>suf. x # s = t @ suf"
      then obtain suf where "x # s = [] @ t @ suf" by auto
      then show ?thesis by blast
    next
      assume "\<exists>pre suf. s = pre @ t @ suf"
      then obtain pre suf where "s = pre @ t @ suf" by blast
      then have "x # s = (x # pre) @ t @ suf" by simp
      then show ?thesis by blast
    qed
  qed
  with Cons show ?case by (simp add: starts_with_iff)
qed

lemma first_match_priority:
  "i < length ps \<Longrightarrow> js_match msg (snd (ps ! i)) = Some m \<Longrightarrow>
   (\<forall>j<i. js_match msg (snd (ps ! j)) = None) \<Longrightarrow>
   first_match ps msg = Some (extract_fields (fst (ps ! i)) msg m)"
proof (induction ps arbitrary: i)
  case Nil
  then show ?case by simp
next
  case (Cons p ps)
  obtain ty r where p: "p = (ty, r)" by (cases p)
  show ?case
  proof (cases i)
    case 0
    with Cons.prems p show ?thesis by simp
  next
    case (Suc k)
    from Cons.prems(3) Suc have "js_match msg (snd ((p # ps) ! 0)) = None" by blast
    then have h: "js_match msg r = None" by (simp add: p)
    have "\<forall>j<k. js_match msg (snd (ps ! j)) = None"
    proof (intro allI impI)
      fix j assume "j < k"
      then have "Suc j < i" using Suc by simp
      with Cons.prems(3) have "js_match msg (snd ((p # ps) ! Suc j)) = None" by blast
      then show "js_match msg (snd (ps ! j)) = None" by simp
    qed
    with Cons.IH[of k] Cons.prems(1,2) Suc
    have "first_match ps msg = Some (extract_fields (fst (ps ! k)) msg m)" by simp
    with h p Suc show ?thesis by simp
  qed
qed

lemma rt_first_match_priority:
  "i < length ps \<Longrightarrow> js_match msg (snd (ps ! i)) = Some m \<Longrightarrow>
   (\<forall>j<i. js_match msg (snd (ps ! j)) = None) \<Longrightarrow>
   rt_first_match ps msg = Some (rt_extract (fst (ps ! i)) msg m)"
proof (induction ps arbitrary: i)
  case Nil
  then show ?case by simp
next
  case (Cons p ps)
  obtain ty r where p: "p = (ty, r)" by (cases p)
  show ?case
  proof (cases i)
    case 0
    with Cons.prems p show ?thesis by simp
  next
    case (Suc k)
    from Cons.prems(3) Suc have "js_match msg (snd ((p # ps) ! 0)) = None" by blast
    then have h: "js_match msg r = None" by (simp add: p)
    have "\<forall>j<k. js_match msg (snd (ps ! j)) = None"
    proof (intro allI impI)
      fix j assume "j < k"
      then have "Suc j < i" using Suc by simp
      with Cons.prems(3) have "js_match msg (snd ((p # ps) ! Suc j)) = None" by blast
      then show "js_match msg (snd (ps ! j)) = None" by simp
    qed
    with Cons.IH[of k] Cons.prems(1,2) Suc
    have "rt_first_match ps msg = Some (rt_extract (fst (ps ! k)) msg m)" by simp
    with h p Suc show ?thesis by simp
  qed
qed

lemma progress_line:
  "parse_text (S ''[40%] Domain Analysis: scanning columns'') = no_data
     \<lparr>ld_message := Text (S ''scanning columns''), ld_step := Text (S ''Domain Analysis''),
      ld_progress := Some 40, ld_type := Text (S ''progress'')\<rparr>"
  by (simp add: parse_text_def string_defs regex_defs no_data_def)

lemma rt_progress_line:
  "rt_parse_text (S ''[40%] Domain Analysis: scanning columns'') = no_data
     \<lparr>ld_message := Text (S ''scanning columns''), ld_step := Text (S ''Domain Analysis''),
      ld_progress := Some 40, ld_type := Text (S ''progress'')\<rparr>"
  by (simp add: rt_parse_text_def rt_defs string_defs regex_defs no_data_def)

lemma full_monitor_error_line:
  "rt_normalize (text_event ''Error: connection refused'')
     = Inr (Some (no_data\<lparr>ld_message := Text (S ''connection refused''),
         ld_level := Some (S ''error''), ld_type := Text (S ''error'')\<rparr>))
   \<and> detectLogType (no_data\<lparr>ld_message := Text (S ''connection refused''),
         ld_level := Some (S ''error''), ld_type := Text (S ''error'')\<rparr>) = Inr (Text (S ''error''))
   \<and> detectLogStatus (no_data\<lparr>ld_message := Text (S ''connection refused''),
         ld_level := Some (S ''error''), ld_type := Text (S ''error'')\<rparr>) = L_error
   \<and> rt_detectLevel (no_data\<lparr>ld_message := Text (S ''connection refused''),
         ld_level := Some (S ''error''), ld_type := Text (S ''error'')\<rparr>) = S ''error''"
  by (simp add: text_event_def rt_normalize_def rt_parse_text_def detectLogType_def
      detectLogStatus_def rt_detectLevel_def rt_defs string_defs regex_defs no_data_def)

lemma length_map_filter_replicate:
  "f x \<noteq> None \<Longrightarrow> length (List.map_filter f (replicate n x)) = n"
  by (induction n) (auto simp: map_filter_simps)

section \<open>The claims\<close>

text \<open>
  C1, as stated: with capacity \<open>C\<close> the buffer never holds more than \<open>C\<close> records.
  It fails for \<open>maxLogs = 0\<close>: \<open>prev.slice(0, -1)\<close> drops the last row and the new
  record is prepended all the same, so the buffer holds one record.
\<close>

theorem buffer_capacity_zero_counterexample:
  "\<not> length (activities (run 0 (receives [(sample_env 1, update_event ''first'' 10)]) mounted))
       \<le> nat 0"
  by (simp add: receives_def update_event_def unified_defs string_defs)

text \<open>
  C1, amended: for every capacity \<open>C \<ge> 1\<close> and every sequence of events arriving at a
  running monitor, of which \<open>n\<close> put a row on the buffer, the buffer holds the most recent
  \<open>min n C\<close> of these rows, newest first; it has at most \<open>C\<close> rows after every sequence
  of actions whatsoever. The simple monitor does the same with its fixed capacity of
  fifty.
\<close>

theorem buffer_bounded_newest_first:
  assumes "1 \<le> C"
  shows "activities (run C (receives ves) mounted)
           = take (min (length (List.map_filter new_row ves)) (nat C))
               (rev (List.map_filter new_row ves))
         \<and> length (activities (run C acts mounted)) \<le> nat C
         \<and> sm_activities (simple_run ves simple_mounted)
           = take (min (length (List.map_filter simple_new_row ves)) 50)
               (rev (List.map_filter simple_new_row ves))"
proof -
  have m: "\<not> isPaused mounted" "length (activities mounted) \<le> nat C" "activities mounted = []"
    by (simp_all add: mounted_def)
  have "activities (run C (receives ves) mounted) = take (nat C) (rev (List.map_filter new_row ves))"
    using run_receives [OF assms m(1) m(2)] m(3) by simp
  moreover have "sm_activities (simple_run ves simple_mounted)
      = take 50 (rev (List.map_filter simple_new_row ves))"
    using simple_run_rows [of simple_mounted ves] by (simp add: simple_mounted_def)
  ultimately show ?thesis using run_length [OF assms m(2)] by (simp add: min_def)
qed

theorem buffer_bounded_newest_first_witness:
  "map message (activities (run 2 (receives (three_updates @ [(sample_env 4, number_event)])) mounted))
       = [S ''Failed to parse incoming log message'', S ''third'']
   \<and> length (activities (run 2 [(sample_env 4, ClearLogs)] mounted)) \<le> 2"
proof -
  let ?ves = "three_updates @ [(sample_env 4, number_event)]"
  let ?rows = "List.map_filter new_row ?ves"
  have h: "(1::int) \<le> 2" by simp
  have rows: "map message ?rows
      = [S ''first'', S ''second'', S ''third'', S ''Failed to parse incoming log message'']"
    by (simp add: three_updates_def map_filter_simps new_row_def update_event_def
        number_event_def sample_env_def unified_defs string_defs)
  have a: "activities (run 2 (receives ?ves) mounted) = take (min (length ?rows) (nat 2)) (rev ?rows)"
    and b: "length (activities (run 2 [(sample_env 4, ClearLogs)] mounted)) \<le> nat 2"
    using buffer_bounded_newest_first [OF h, of ?ves "[(sample_env 4, ClearLogs)]"] by simp_all
  have "map message (activities (run 2 (receives ?ves) mounted))
      = take (min (length (map message ?rows)) 2) (rev (map message ?rows))"
    by (simp only: a take_map rev_map length_map) simp
  then show ?thesis using b by (simp only: rows) simp
qed

text \<open>
  C2: the table is tried in its fixed order and only the first pattern that matches is
  applied, whatever later patterns would match, in the unified and in the full monitor;
  the line \<open>[40%] Domain Analysis: scanning columns\<close> is read by the bracketed progress
  pattern as progress 40, step \<open>Domain Analysis\<close>, message \<open>scanning columns\<close>, with
  no agent field.
\<close>

theorem first_matching_pattern_applies:
  "(\<forall>i m. i < length patterns \<longrightarrow> js_match msg (snd (patterns ! i)) = Some m \<longrightarrow>
      (\<forall>j<i. js_match msg (snd (patterns ! j)) = None) \<longrightarrow>
      parse_text msg = extract_fields (fst (patterns ! i)) msg m)
   \<and> (\<forall>i m. i < length rt_patterns \<longrightarrow> js_match msg (snd (rt_patterns ! i)) = Some m \<longrightarrow>
      (\<forall>j<i. js_match msg (snd (rt_patterns ! j)) = None) \<longrightarrow>
      rt_parse_text msg = rt_extract (fst (rt_patterns ! i)) msg m)
   \<and> parse_text (S ''[40%] Domain Analysis: scanning columns'') = no_data
       \<lparr>ld_message := Text (S ''scanning columns''), ld_step := Text (S ''Domain Analysis''),
        ld_progress := Some 40, ld_type := Text (S ''progress'')\<rparr>
   \<and> rt_parse_text (S ''[40%] Domain Analysis: scanning columns'') = no_data
       \<lparr>ld_message := Text (S ''scanning columns''), ld_step := Text (S ''Domain Analysis''),
        ld_progress := Some 40, ld_type := Text (S ''progress'')\<rparr>"
  using first_match_priority [of _ patterns msg] rt_first_match_priority [of _ rt_patterns msg]
    progress_line rt_progress_line
  by (simp add: parse_text_def rt_parse_text_def)

theorem first_matching_pattern_applies_witness:
  "js_match (S ''[50%] Failed: disk'') (snd (patterns ! 0)) = Some [(3, 14, 18), (2, 6, 12), (1, 1, 3)]
   \<and> js_match (S ''[50%] Failed: disk'') (snd (patterns ! 4)) \<noteq> None
   \<and> parse_text (S ''[50%] Failed: disk'') = no_data
       \<lparr>ld_message := Text (S ''disk''), ld_step := Text (S ''Failed''),
        ld_progress := Some 50, ld_type := Text (S ''progress'')\<rparr>
   \<and> js_match (S ''[40%] Domain Expert: scanning'') (snd (rt_patterns ! 0))
       = Some [(3, 21, 29), (2, 6, 19), (1, 1, 3)]
   \<and> js_match (S ''[40%] Domain Expert: scanning'') (snd (rt_patterns ! 4)) \<noteq> None
   \<and> rt_parse_text (S ''[40%] Domain Expert: scanning'') = no_data
       \<lparr>ld_message := Text (S ''scanning''), ld_step := Text (S ''Domain Expert''),
        ld_progress := Some 40, ld_type := Text (S ''progress'')\<rparr>"
proof -
  let ?L = "S ''[50%] Failed: disk''"
  let ?M = "[(3, 14, 18), (2, 6, 12), (1, 1, 3)] :: caps"
  have m: "js_match ?L (snd (patterns ! 0)) = Some ?M"
    by (simp add: string_defs regex_defs)
  have l: "js_match ?L (snd (patterns ! 4)) \<noteq> None"
    by (simp add: string_defs regex_defs)
  have "0 < length patterns \<longrightarrow> js_match ?L (snd (patterns ! 0)) = Some ?M \<longrightarrow>
      (\<forall>j<0. js_match ?L (snd (patterns ! j)) = None) \<longrightarrow>
      parse_text ?L = extract_fields (fst (patterns ! 0)) ?L ?M"
    using first_matching_pattern_applies [of ?L] by blast
  moreover have "0 < length patterns" by (simp add: patterns_def)
  ultimately have "parse_text ?L = extract_fields (fst (patterns ! 0)) ?L ?M"
    using m by simp
  moreover have "extract_fields (fst (patterns ! 0)) ?L ?M = no_data
       \<lparr>ld_message := Text (S ''disk''), ld_step := Text (S ''Failed''),
        ld_progress := Some 50, ld_type := Text (S ''progress'')\<rparr>"
    by (simp add: patterns_def grp_def string_defs no_data_def)
  ultimately have unified: "parse_text ?L = no_data
       \<lparr>ld_message := Text (S ''disk''), ld_step := Text (S ''Failed''),
        ld_progress := Some 50, ld_type := Text (S ''progress'')\<rparr>"
    by simp
  let ?K = "S ''[40%] Domain Expert: scanning''"
  let ?N = "[(3, 21, 29), (2, 6, 19), (1, 1, 3)] :: caps"
  have m': "js_match ?K (snd (rt_patterns ! 0)) = Some ?N"
    by (simp add: rt_defs string_defs regex_defs)
  have l': "js_match ?K (snd (rt_patterns ! 4)) \<noteq> None"
    by (simp add: rt_defs string_defs regex_defs)
  have "0 < length rt_patterns \<longrightarrow> js_match ?K (snd (rt_patterns ! 0)) = Some ?N \<longrightarrow>
      (\<forall>j<0. js_match ?K (snd (rt_patterns ! j)) = None) \<longrightarrow>
      rt_parse_text ?K = rt_extract (fst (rt_patterns ! 0)) ?K ?N"
    using first_matching_pattern_applies [of ?K] by blast
  moreover have "0 < length rt_patterns" by (simp add: rt_patterns_def)
  ultimately have "rt_parse_text ?K = rt_extract (fst (rt_patterns ! 0)) ?K ?N"
    using m' by simp
  moreover have "rt_extract (fst (rt_patterns ! 0)) ?K ?N = no_data
       \<lparr>ld_message := Text (S ''scanning''), ld_step := Text (S ''Domain Expert''),
        ld_progress := Some 40, ld_type := Text (S ''progress'')\<rparr>"
    by (simp add: rt_patterns_def grp_def string_defs no_data_def)
  ultimately have full: "rt_parse_text ?K = no_data
       \<lparr>ld_message := Text (S ''scanning''), ld_step := Text (S ''Domain Expert''),
        ld_progress := Some 40, ld_type := Text (S ''progress'')\<rparr>"
    by simp
  show ?thesis using m l unified m' l' full by simp
qed

text \<open>
  C3, in the simple monitor: a structured event with \<open>progress = -1\<close> arrives while the
  gauge shows 40. The update is guarded by \<open>logData.progress !== undefined\<close> alone, and
  the gauge becomes \<open>-1\<close>. (The unified monitor adds \<open>&& logData.progress >= 0\<close>:
  \<open>unified_gauge_rule\<close>.)
\<close>

theorem simple_monitor_gauge_takes_error_signal:
  "sm_currentProgress (simple_receive (sample_env 2) (update_event ''generation failed'' (- 1))
      \<lparr>sm_activities = [], sm_isPaused = False, sm_currentProgress = 40, sm_lastMessage = None\<rparr>)
   = - 1"
  by (simp add: simple_defs update_event_def string_defs no_data_def)

text \<open>
  C4, in the unified monitor: the line \<open>Error: connection refused\<close> is read by the error
  pattern, which keeps \<open>connection refused\<close> as the message; \<open>detectActivityType\<close>
  looks at the pattern's type only for \<open>gemini\<close> and \<open>agent\<close> and finds no keyword in
  the remaining message, so the record has type \<open>system\<close>, status \<open>error\<close>, level
  \<open>error\<close>. (The full monitor returns the pattern's type: \<open>full_monitor_error_line\<close>.)
\<close>

theorem unified_error_line_is_system:
  "map (\<lambda>a. (atype a, status a, level a, message a))
     (activities (step 100 (sample_env 1) (Receive (text_event ''Error: connection refused'')) mounted))
   = [(T_system, S_error, Some (S ''error''), S ''connection refused'')]"
  by (simp add: text_event_def unified_defs string_defs regex_defs)

text \<open>
  C5: pause, an event arrives, resume. The event is not appended while the gate is set;
  it stays in \<open>lastMessage\<close>, and the flip of \<open>isPaused\<close> on resume runs the effect
  again, which appends the record of that event. So in the unified and in the simple
  monitor.
\<close>

theorem paused_event_replayed_on_resume:
  "activities (run 100 [(sample_env 1, TogglePause), (sample_env 2, Receive (text_event ''hello''))]
      mounted) = []
   \<and> map message (activities (run 100 [(sample_env 1, TogglePause),
        (sample_env 2, Receive (text_event ''hello'')), (sample_env 3, TogglePause)] mounted))
     = [S ''hello'']
   \<and> sm_activities (simple_receive (sample_env 2) (update_event ''hello'' 10)
        (simple_togglePause (sample_env 1) simple_mounted)) = []
   \<and> map sa_message (sm_activities (simple_togglePause (sample_env 3)
        (simple_receive (sample_env 2) (update_event ''hello'' 10)
          (simple_togglePause (sample_env 1) simple_mounted))))
     = [S ''hello'']"
  by (simp add: text_event_def update_event_def unified_defs simple_defs string_defs regex_defs)

text \<open>
  C6, as stated: every poll tick replaces the snapshot wholesale. It fails on a tick
  whose probe throws: the \<open>catch\<close> block spreads the previous snapshot and rewrites
  \<open>backend\<close> only, so after a good tick a failed one still shows the model service
  online.
\<close>

theorem failed_tick_keeps_fields_counterexample:
  "gemini (checkSystemStatus True (sample_clock 30000) Thrown
      (checkSystemStatus True (sample_clock 0) (Resolved ready_response) initial_status))
     = gemini (checkSystemStatus True (sample_clock 0) (Resolved ready_response) initial_status)
   \<and> gemini_state (gemini (checkSystemStatus True (sample_clock 30000) Thrown
      (checkSystemStatus True (sample_clock 0) (Resolved ready_response) initial_status))) = Online
   \<and> backend (checkSystemStatus True (sample_clock 30000) Thrown
      (checkSystemStatus True (sample_clock 0) (Resolved ready_response) initial_status))
     = \<lparr>healthy = False, lastCheck = Some 30012, responseTime = 0\<rparr>
   \<and> checkSystemStatus True (sample_clock 30000) Thrown
      (checkSystemStatus True (sample_clock 0) (Resolved ready_response) initial_status)
     \<noteq> checkSystemStatus True (sample_clock 30000) Thrown initial_status"
  by (simp add: checkSystemStatus_def ready_response_def sample_clock_def initial_status_def S_def)

text \<open>
  C6, amended: a tick whose probe resolves replaces the snapshot wholesale (the result
  does not depend on the previous snapshot); a tick whose probe throws rewrites
  \<open>backend\<close> to unhealthy with response time \<open>0\<close> and keeps \<open>gemini\<close>,
  \<open>agents\<close> and \<open>websockets\<close> of the previous snapshot. So in the unified and in
  the full monitor.
\<close>

theorem tick_wholesale_or_backend_only:
  "checkSystemStatus c k (Resolved r) prev = checkSystemStatus c k (Resolved r) prev'
   \<and> backend (checkSystemStatus c k Thrown prev)
       = \<lparr>healthy = False, lastCheck = Some (check_date k), responseTime = 0\<rparr>
   \<and> gemini (checkSystemStatus c k Thrown prev) = gemini prev
   \<and> agents (checkSystemStatus c k Thrown prev) = agents prev
   \<and> websockets (checkSystemStatus c k Thrown prev) = websockets prev
   \<and> rt_checkSystemStatus c k (Resolved r) p = rt_checkSystemStatus c k (Resolved r) p'
   \<and> rt_backend (rt_checkSystemStatus c k Thrown p)
       = \<lparr>healthy = False, lastCheck = Some (check_date k), responseTime = 0\<rparr>
   \<and> rt_gemini_part (rt_checkSystemStatus c k Thrown p) = rt_gemini_part p
   \<and> rt_agents (rt_checkSystemStatus c k Thrown p) = rt_agents p
   \<and> rt_websockets (rt_checkSystemStatus c k Thrown p) = rt_websockets p"
  by (simp add: checkSystemStatus_def rt_checkSystemStatus_def)

text \<open>
  C7: while the pause gate is set, the arrival of any event leaves the buffer and the
  gauge as they are, in the unified and in the simple monitor; after resume, an event the
  monitor accepts is prepended and sets the gauge as usual.
\<close>

theorem paused_append_is_noop:
  assumes "isPaused s"
  shows "activities (step C v (Receive x) s) = activities s
       \<and> currentProgress (step C v (Receive x) s) = currentProgress s
       \<and> \<not> isPaused (step C v' TogglePause s)
       \<and> (\<forall>d a. normalize_event x = Inr (Some d) \<longrightarrow> newActivity v x d = Inr a \<longrightarrow>
            activities (step C v (Receive x) (step C v' TogglePause s))
              = prepend C a (activities (step C v' TogglePause s))
          \<and> currentProgress (step C v (Receive x) (step C v' TogglePause s))
              = (case ld_progress d of
                   None \<Rightarrow> currentProgress (step C v' TogglePause s)
                 | Some p \<Rightarrow> if 0 \<le> p then p else currentProgress (step C v' TogglePause s)))
       \<and> (sm_isPaused t \<longrightarrow>
            sm_activities (simple_receive v x t) = sm_activities t
          \<and> sm_currentProgress (simple_receive v x t) = sm_currentProgress t)"
proof -
  have a: "step C v (Receive x) s = s\<lparr>lastMessage := Some x\<rparr>"
    using assms by (simp add: message_effect_def)
  have p: "\<not> isPaused (step C v' TogglePause s)"
    using assms
    by (simp add: message_effect_def catch_block_def split: option.splits sum.splits)
  have q: "sm_isPaused t \<Longrightarrow> simple_receive v x t = t\<lparr>sm_lastMessage := Some x\<rparr>"
    by (simp add: simple_receive_def simple_message_effect_def)
  show ?thesis using a p q receive_accepted [OF p, of x _ v _ C] by simp
qed

theorem paused_append_is_noop_witness:
  "isPaused (paused_at 40)
   \<and> activities (step 100 (sample_env 1) (Receive (update_event ''first'' 10)) (paused_at 40)) = []
   \<and> currentProgress (step 100 (sample_env 1) (Receive (update_event ''first'' 10)) (paused_at 40)) = 40
   \<and> map message (activities (step 100 (sample_env 1) (Receive (update_event ''first'' 10))
        (step 100 (sample_env 0) TogglePause (paused_at 40)))) = [S ''first'']
   \<and> currentProgress (step 100 (sample_env 1) (Receive (update_event ''first'' 10))
        (step 100 (sample_env 0) TogglePause (paused_at 40))) = 10
   \<and> sm_currentProgress (simple_receive (sample_env 1) (update_event ''first'' 10)
        (simple_mounted\<lparr>sm_isPaused := True, sm_currentProgress := 40\<rparr>)) = 40
   \<and> sm_activities (simple_receive (sample_env 1) (update_event ''first'' 10)
        (simple_mounted\<lparr>sm_isPaused := True, sm_currentProgress := 40\<rparr>)) = []"
proof -
  let ?x = "update_event ''first'' 10"
  let ?d = "no_data\<lparr>ld_message := Text (S ''first''), ld_progress := Some 10\<rparr>"
  let ?t = "simple_mounted\<lparr>sm_isPaused := True, sm_currentProgress := 40\<rparr>"
  let ?r = "step 100 (sample_env 0) TogglePause (paused_at 40)"
  have h: "isPaused (paused_at 40)" by (simp add: paused_at_def)
  have n: "normalize_event ?x = Inr (Some ?d)"
    by (simp add: normalize_event_def update_event_def S_def)
  obtain a where a: "newActivity (sample_env 1) ?x ?d = Inr a"
    and m: "message a = message_or_placeholder (ld_message ?d)"
    using newActivity_typed [of ?d] by (auto simp: typed_def no_data_def)
  have k: "sm_isPaused ?t" by simp
  note t = paused_append_is_noop [OF h, of 100 "sample_env 1" ?x "sample_env 0" ?t]
  have r: "activities ?r = []" "currentProgress ?r = 40"
    by (simp_all add: message_effect_def paused_at_def)
  have u1: "activities (step 100 (sample_env 1) (Receive ?x) (paused_at 40)) = []"
    and u2: "currentProgress (step 100 (sample_env 1) (Receive ?x) (paused_at 40)) = 40"
    using t by (simp_all add: paused_at_def)
  have "activities (step 100 (sample_env 1) (Receive ?x) ?r) = prepend 100 a (activities ?r)
      \<and> currentProgress (step 100 (sample_env 1) (Receive ?x) ?r)
          = (case ld_progress ?d of None \<Rightarrow> currentProgress ?r
             | Some p \<Rightarrow> if 0 \<le> p then p else currentProgress ?r)"
    using t n a by blast
  then have u3: "map message (activities (step 100 (sample_env 1) (Receive ?x) ?r)) = [S ''first'']"
    and u4: "currentProgress (step 100 (sample_env 1) (Receive ?x) ?r) = 10"
    using m by (simp_all only: r) (simp_all add: prepend_def slice0_def no_data_def S_def)
  have "sm_isPaused ?t \<longrightarrow> sm_activities (simple_receive (sample_env 1) ?x ?t) = sm_activities ?t
      \<and> sm_currentProgress (simple_receive (sample_env 1) ?x ?t) = sm_currentProgress ?t"
    using t by blast
  with k have u5: "sm_currentProgress (simple_receive (sample_env 1) ?x ?t) = 40"
    and u6: "sm_activities (simple_receive (sample_env 1) ?x ?t) = []"
    by (simp_all add: simple_mounted_def)
  show ?thesis using h u1 u2 u3 u4 u5 u6 by blast
qed

text \<open>
  C8, as stated: every inbound event yields a record, the fallback
  \<open>{message: "Processing..."}\<close> for an event of neither shape. It fails: for such an
  event \<open>logData\<close> stays null and \<open>if (logData)\<close> skips the append.
\<close>

theorem neither_shape_counterexample:
  "normalize_event \<lparr>ev_type = S ''status'', ev_data = Some no_data\<rparr> = Inr None
   \<and> activities (step 100 (sample_env 1)
        (Receive \<lparr>ev_type = S ''status'', ev_data = Some no_data\<rparr>) mounted) = []"
  by (simp add: normalize_event_def message_effect_def mounted_def no_data_def S_def)

text \<open>
  C8, amended: the message effect of a running monitor never raises, and what it does
  with an event is decided by the event's shape. A typed structured event yields a record
  whose message is that of the data, or \<open>Processing...\<close> when it is absent or empty; a
  free-text event yields the record of the parse of its message, and when no pattern
  matches the record's message is the entire raw text; an event on which the \<open>try\<close>
  block throws yields the error record of the \<open>catch\<close> block; an event of neither
  shape yields no record and leaves buffer and gauge unchanged.
\<close>

theorem normalize_event_total:
  assumes "\<not> isPaused s"
  shows "(structured e d \<and> typed d \<longrightarrow>
       (\<exists>a. newActivity v e d = Inr a
          \<and> message a = message_or_placeholder (ld_message d)
          \<and> activities (step C v (Receive e) s) = prepend C a (activities s)))
   \<and> (free_text e msg \<longrightarrow>
       (\<exists>a. newActivity v e (parse_text msg) = Inr a
          \<and> activities (step C v (Receive e) s) = prepend C a (activities s)
          \<and> ((\<forall>p \<in> set patterns. js_match msg (snd p) = None) \<longrightarrow> message a = msg)))
   \<and> (structured e d \<and> \<not> typed d \<or> ill_text e \<longrightarrow>
       step C v (Receive e) s = catch_block C v (s\<lparr>lastMessage := Some e\<rparr>))
   \<and> (neither_shape e \<longrightarrow>
       activities (step C v (Receive e) s) = activities s
       \<and> currentProgress (step C v (Receive e) s) = currentProgress s)"
proof (intro conjI impI)
  assume h: "structured e d \<and> typed d"
  then have n: "normalize_event e = Inr (Some d)"
    by (simp add: structured_def normalize_event_def)
  from h obtain a where a: "newActivity v e d = Inr a"
    "message a = message_or_placeholder (ld_message d)"
    using newActivity_typed by blast
  show "\<exists>a. newActivity v e d = Inr a
          \<and> message a = message_or_placeholder (ld_message d)
          \<and> activities (step C v (Receive e) s) = prepend C a (activities s)"
    using a receive_accepted [OF assms n a(1), of C] by blast
next
  assume h: "free_text e msg"
  then have n: "normalize_event e = Inr (Some (parse_text msg))"
    by (auto simp: free_text_def normalize_event_def)
  obtain a where a: "newActivity v e (parse_text msg) = Inr a"
    "message a = message_or_placeholder (ld_message (parse_text msg))"
    using newActivity_typed [OF parse_text_typed] by blast
  have "message a = msg" if "\<forall>p \<in> set patterns. js_match msg (snd p) = None"
  proof -
    have "parse_text msg = no_data\<lparr>ld_message := Text msg, ld_type := Text (S ''system'')\<rparr>"
      using that by (simp add: parse_text_def first_match_none)
    moreover have "msg \<noteq> []" using h by (simp add: free_text_def)
    ultimately show ?thesis using a(2) by (simp add: no_data_def)
  qed
  then show "\<exists>a. newActivity v e (parse_text msg) = Inr a
          \<and> activities (step C v (Receive e) s) = prepend C a (activities s)
          \<and> ((\<forall>p \<in> set patterns. js_match msg (snd p) = None) \<longrightarrow> message a = msg)"
    using a receive_accepted [OF assms n a(1), of C] by blast
next
  assume "structured e d \<and> \<not> typed d \<or> ill_text e"
  then show "step C v (Receive e) s = catch_block C v (s\<lparr>lastMessage := Some e\<rparr>)"
  proof
    assume h: "structured e d \<and> \<not> typed d"
    then have "normalize_event e = Inr (Some d)" "newActivity v e d = Inl TypeError"
      by (simp_all add: structured_def normalize_event_def newActivity_ill)
    then show ?thesis using assms by (intro receive_thrown) auto
  next
    assume "ill_text e"
    then have "normalize_event e = Inl TypeError"
      by (auto simp: ill_text_def normalize_event_def)
    then show ?thesis using assms by (intro receive_thrown) auto
  qed
next
  assume n: "neither_shape e"
  have none: "normalize_event e = Inr None"
  proof (cases "ev_data e")
    case None
    then show ?thesis by (simp add: normalize_event_def)
  next
    case (Some d)
    with n have t: "ev_type e \<noteq> S ''generation_update''"
      by (simp add: neither_shape_def structured_def)
    show ?thesis
    proof (cases "ld_message d")
      case Absent
      with Some t show ?thesis by (simp add: normalize_event_def)
    next
      case (Text m)
      with n Some t have "m = []" by (auto simp: neither_shape_def free_text_def)
      with Text Some t show ?thesis by (simp add: normalize_event_def)
    next
      case (Ill b)
      with n Some t have "\<not> b" by (auto simp: neither_shape_def ill_text_def)
      with Ill Some t show ?thesis by (simp add: normalize_event_def)
    qed
  qed
  show "activities (step C v (Receive e) s) = activities s"
    by (subst receive_skipped [OF none]) simp
  show "currentProgress (step C v (Receive e) s) = currentProgress s"
    by (subst receive_skipped [OF none]) simp
qed

theorem normalize_event_total_witness:
  "map message (activities (step 100 (sample_env 1) (Receive typed_update) mounted))
     = [S ''Processing...'']
   \<and> map message (activities (step 100 (sample_env 1) (Receive (text_event ''hello'')) mounted))
     = [S ''hello'']
   \<and> map message (activities (step 100 (sample_env 1) (Receive ill_update) mounted))
     = [S ''Failed to parse incoming log message'']
   \<and> map message (activities (step 100 (sample_env 1) (Receive number_event) mounted))
     = [S ''Failed to parse incoming log message'']
   \<and> activities (step 100 (sample_env 1) (Receive status_event) mounted) = []"
proof -
  have r: "\<not> isPaused mounted" by (simp add: mounted_def)
  have e: "activities mounted = []" by (simp add: mounted_def)
  note t = normalize_event_total [OF r, of _ _ "sample_env 1" 100]
  have s1: "structured typed_update no_data \<and> typed no_data"
    by (simp add: structured_def typed_update_def typed_def no_data_def)
  have "\<exists>a. newActivity (sample_env 1) typed_update no_data = Inr a
       \<and> message a = message_or_placeholder (ld_message no_data)
       \<and> activities (step 100 (sample_env 1) (Receive typed_update) mounted)
           = prepend 100 a (activities mounted)"
    using t [of typed_update no_data] s1 by blast
  then have c1: "map message (activities (step 100 (sample_env 1) (Receive typed_update) mounted))
     = [S ''Processing...'']"
    by (auto simp only: e) (simp add: prepend_def slice0_def no_data_def)
  have s2: "free_text (text_event ''hello'') (S ''hello'')"
    by (simp add: free_text_def text_event_def S_def no_data_def)
  have p: "\<forall>p \<in> set patterns. js_match (S ''hello'') (snd p) = None"
    by (simp add: string_defs regex_defs)
  have "\<exists>a. newActivity (sample_env 1) (text_event ''hello'') (parse_text (S ''hello'')) = Inr a
       \<and> activities (step 100 (sample_env 1) (Receive (text_event ''hello'')) mounted)
           = prepend 100 a (activities mounted)
       \<and> ((\<forall>p \<in> set patterns. js_match (S ''hello'') (snd p) = None) \<longrightarrow> message a = S ''hello'')"
    using t [of "text_event ''hello''" _ "S ''hello''"] s2 by blast
  with p have c2:
    "map message (activities (step 100 (sample_env 1) (Receive (text_event ''hello'')) mounted))
     = [S ''hello'']"
    by (auto simp only: e) (simp add: prepend_def slice0_def)
  have s3: "structured ill_update (no_data\<lparr>ld_message := Text (S ''working''), ld_step := Ill True\<rparr>)
      \<and> \<not> typed (no_data\<lparr>ld_message := Text (S ''working''), ld_step := Ill True\<rparr>)"
    by (simp add: structured_def ill_update_def typed_def no_data_def)
  have "step 100 (sample_env 1) (Receive ill_update) mounted
      = catch_block 100 (sample_env 1) (mounted\<lparr>lastMessage := Some ill_update\<rparr>)"
    using t [of ill_update "no_data\<lparr>ld_message := Text (S ''working''), ld_step := Ill True\<rparr>"] s3
    by blast
  then have c3: "map message (activities (step 100 (sample_env 1) (Receive ill_update) mounted))
     = [S ''Failed to parse incoming log message'']"
    by (simp only:) (simp add: catch_block_def errorActivity_def prepend_def slice0_def mounted_def)
  have s4: "ill_text number_event"
    by (simp add: ill_text_def number_event_def S_def no_data_def)
  have "step 100 (sample_env 1) (Receive number_event) mounted
      = catch_block 100 (sample_env 1) (mounted\<lparr>lastMessage := Some number_event\<rparr>)"
    using t [of number_event] s4 by blast
  then have c4: "map message (activities (step 100 (sample_env 1) (Receive number_event) mounted))
     = [S ''Failed to parse incoming log message'']"
    by (simp only:) (simp add: catch_block_def errorActivity_def prepend_def slice0_def mounted_def)
  have s5: "neither_shape status_event"
    by (simp add: neither_shape_def structured_def free_text_def ill_text_def status_event_def
        S_def no_data_def)
  have c5: "activities (step 100 (sample_env 1) (Receive status_event) mounted) = []"
    using t [of status_event] s5 e by simp
  show ?thesis using c1 c2 c3 c4 c5 by blast
qed

text \<open>
  C9: the projection returns exactly the records that pass every criterion of the
  specification, in the order of the buffer. The enhanced monitor has the agent and the
  search criterion only.
\<close>

theorem projection_exact:
  "filteredActivities fl fa st acts = filter (spec_passes fl fa st) acts
   \<and> subseq (filteredActivities fl fa st acts) acts
   \<and> filteredLogs st fa logs = filter (spec_passes_enhanced fa st) logs
   \<and> subseq (filteredLogs st fa logs) logs"
proof -
  have "filteredActivities fl fa st acts = filter (spec_passes fl fa st) acts"
    unfolding filteredActivities_def
    by (rule filter_cong)
       (auto simp: spec_passes_def spec_substring_def includes_str_iff Let_def split: option.splits)
  moreover have "filteredLogs st fa logs = filter (spec_passes_enhanced fa st) logs"
    unfolding filteredLogs_def
    by (rule filter_cong)
       (auto simp: spec_passes_enhanced_def spec_substring_def includes_str_iff Let_def)
  ultimately show ?thesis by simp
qed

theorem projection_exact_witness:
  "filteredActivities (S ''all'') (S ''Privacy Agent'') (S ''score'')
     [sample_row 2 ''Domain detected'' ''Domain Expert'' ''info'',
      sample_row 1 ''Privacy Score: 92%'' ''Privacy Agent'' ''success'']
   = [sample_row 1 ''Privacy Score: 92%'' ''Privacy Agent'' ''success'']"
proof -
  have a: "\<not> spec_passes (S ''all'') (S ''Privacy Agent'') (S ''score'')
      (sample_row 2 ''Domain detected'' ''Domain Expert'' ''info'')"
    by (simp add: spec_passes_def sample_row_def S_def)
  have "includes_str (toLowerCase (S ''Privacy Score: 92%'')) (toLowerCase (S ''score''))"
    by (simp add: string_defs)
  then have b: "spec_passes (S ''all'') (S ''Privacy Agent'') (S ''score'')
      (sample_row 1 ''Privacy Score: 92%'' ''Privacy Agent'' ''success'')"
    by (simp add: spec_passes_def sample_row_def spec_substring_def includes_str_iff)
  show ?thesis
    using a b projection_exact [of "S ''all''" "S ''Privacy Agent''" "S ''score''"
      "[sample_row 2 ''Domain detected'' ''Domain Expert'' ''info'',
        sample_row 1 ''Privacy Score: 92%'' ''Privacy Agent'' ''success'']"]
    by simp
qed

text \<open>
  C10: the log list renders the first fifty rows of the filtered projection and no more;
  the rows beyond stay in the buffer, which with \<open>maxLogs = 100\<close> grows to a hundred
  rows.
\<close>

theorem display_first_fifty:
  "displayed fl fa st s = take 50 (filteredActivities fl fa st (activities s))
   \<and> length (displayed fl fa st s) \<le> 50
   \<and> set (drop 50 (filteredActivities fl fa st (activities s))) \<subseteq> set (activities s)
   \<and> (1 \<le> C \<longrightarrow>
        length (activities (run C (receives ves) mounted))
          = min (length (List.map_filter new_row ves)) (nat C)
        \<and> length (displayed (S ''all'') (S ''all'') [] (run C (receives ves) mounted))
            = min 50 (min (length (List.map_filter new_row ves)) (nat C)))"
proof (intro conjI impI)
  show d: "displayed fl fa st s = take 50 (filteredActivities fl fa st (activities s))" for fl fa st s
    by (simp add: displayed_def slice0_def)
  show "length (displayed fl fa st s) \<le> 50"
    by (simp add: d)
  have "set (drop 50 (filteredActivities fl fa st (activities s)))
      \<subseteq> set (filteredActivities fl fa st (activities s))"
    by (rule set_drop_subset)
  also have "\<dots> \<subseteq> set (activities s)"
    by (simp add: filteredActivities_def)
  finally show "set (drop 50 (filteredActivities fl fa st (activities s))) \<subseteq> set (activities s)" .
  have all: "filteredActivities (S ''all'') (S ''all'') [] xs = xs" for xs
    by (simp add: filteredActivities_def)
  assume h: "1 \<le> C"
  have "activities (run C (receives ves) mounted)
      = take (nat C) (rev (List.map_filter new_row ves))"
    using run_receives [OF h, of mounted ves] by (simp add: mounted_def)
  then show l: "length (activities (run C (receives ves) mounted))
      = min (length (List.map_filter new_row ves)) (nat C)"
    by simp
  show "length (displayed (S ''all'') (S ''all'') [] (run C (receives ves) mounted))
      = min 50 (min (length (List.map_filter new_row ves)) (nat C))"
    by (simp add: d all l min.commute)
qed

theorem display_first_fifty_witness:
  "length (activities (run 100
        (receives (replicate 60 (sample_env 1, update_event ''first'' 10))) mounted)) = 60
   \<and> length (displayed (S ''all'') (S ''all'') [] (run 100
        (receives (replicate 60 (sample_env 1, update_event ''first'' 10))) mounted)) = 50"
proof -
  let ?ves = "replicate 60 (sample_env 1, update_event ''first'' 10)"
  have h1: "(1::int) \<le> 100" by simp
  have "new_row (sample_env 1, update_event ''first'' 10) \<noteq> None"
    by (simp add: new_row_def update_event_def sample_env_def unified_defs string_defs)
  then have n: "length (List.map_filter new_row ?ves) = 60"
    by (rule length_map_filter_replicate)
  have "(1::int) \<le> 100 \<longrightarrow>
      length (activities (run 100 (receives ?ves) mounted))
        = min (length (List.map_filter new_row ?ves)) (nat 100)
      \<and> length (displayed (S ''all'') (S ''all'') [] (run 100 (receives ?ves) mounted))
          = min 50 (min (length (List.map_filter new_row ?ves)) (nat 100))"
    using display_first_fifty [of "[]" "[]" "[]" mounted 100 ?ves] by blast
  with h1 show ?thesis by (simp only: n) simp
qed

end
